theory Spec2Isabelle
  imports Main "HOL-Library.Multiset"
begin

section \<open>Data model (DATABASE\_SETUP.md, tables)\<close>

text \<open>
  Row identifiers are UUIDs in the schema; here they are natural numbers. A
  \<^verbatim>\<open>TIMESTAMP\<close> is an instant in milliseconds, a \<^verbatim>\<open>DATE\<close> is a whole day number.
  Nullable columns are options; columns restricted by a \<^verbatim>\<open>CHECK (... IN ...)\<close>
  constraint are datatypes with exactly the listed values. The bookkeeping columns
  \<open>created_at\<close> and \<open>updated_at\<close>, which nothing reads, are left out.
\<close>

type_synonym uuid = nat
type_synonym instant = int
type_synonym day = int

datatype equipment_status = Available | CheckedOut | NeedsRepair | OutOfService
datatype category = Grounds | Tools | Cleaning | Electrical | Events | Shop | Range | Other
datatype use_type = Club | Personal
datatype return_condition = Good | Deficiency
datatype severity = Minor | Major
datatype deficiency_status = Pending | Resolved
datatype role = Volunteer | Chair | Admin

record equipment =
  eq_id :: uuid
  equipment_code :: string
  name :: string
  category :: category
  location :: "string option"
  status :: equipment_status
  last_maintenance :: "day option"
  eq_notes :: "string option"

record checkout =
  co_id :: uuid
  co_equipment_id :: uuid
  co_user_id :: uuid
  checkout_date :: instant
  expected_return :: "day option"
  return_date :: "instant option"
  use_type :: use_type
  purpose :: string
  return_condition :: "return_condition option"

record deficiency =
  def_id :: uuid
  def_equipment_id :: uuid
  checkout_id :: "uuid option"
  reported_by :: uuid
  reported_date :: day
  description :: string
  severity :: severity
  def_status :: deficiency_status
  resolved_by :: "uuid option"
  resolved_date :: "day option"
  resolution_notes :: "string option"

record user_row =
  u_id :: uuid
  employee_number :: int
  first_name :: string
  last_name :: string
  role :: role

record database =
  eq_equipment :: "equipment list"
  eq_checkouts :: "checkout list"
  eq_deficiencies :: "deficiency list"
  users :: "user_row list"

section \<open>Triggers (DATABASE\_SETUP.md, functions and triggers)\<close>

text \<open>
  The trigger functions are \<^verbatim>\<open>SECURITY DEFINER\<close>: their writes to the equipment table
  are not filtered by the policies of the caller. Each of them issues
  \<^verbatim>\<open>UPDATE public.eq_equipment SET status = s WHERE id = eid\<close>.
\<close>

definition set_equipment_status :: "uuid \<Rightarrow> equipment_status \<Rightarrow> database \<Rightarrow> database" where
  "set_equipment_status eid s db =
     db\<lparr>eq_equipment := map (\<lambda>e. if eq_id e = eid then e\<lparr>status := s\<rparr> else e) (eq_equipment db)\<rparr>"

definition update_equipment_status_on_checkout :: "checkout \<Rightarrow> database \<Rightarrow> database" where
  "update_equipment_status_on_checkout NEW db =
     set_equipment_status (co_equipment_id NEW) CheckedOut db"

definition update_equipment_status_on_return :: "checkout \<Rightarrow> checkout \<Rightarrow> database \<Rightarrow> database" where
  "update_equipment_status_on_return OLD NEW db =
     (if return_date NEW \<noteq> None \<and> return_date OLD = None
      then set_equipment_status (co_equipment_id NEW) Available db
      else db)"

datatype tg_op = INSERT | UPDATE

text \<open>
  The deficiency trigger serves both operations; \<open>OLD\<close> exists only for an update and is
  read only in the update branch.
\<close>

definition update_equipment_on_deficiency ::
    "tg_op \<Rightarrow> deficiency option \<Rightarrow> deficiency \<Rightarrow> database \<Rightarrow> database" where
  "update_equipment_on_deficiency TG_OP OLD NEW db =
     (if TG_OP = INSERT \<and> severity NEW = Major
      then set_equipment_status (def_equipment_id NEW) NeedsRepair db
      else if TG_OP = UPDATE \<and> def_status NEW = Resolved \<and> map_option def_status OLD = Some Pending
      then
        (if \<not> list_ex (\<lambda>d. def_equipment_id d = def_equipment_id NEW \<and> def_id d \<noteq> def_id NEW
                            \<and> severity d = Major \<and> def_status d = Pending) (eq_deficiencies db)
         then
           (if list_ex (\<lambda>c. co_equipment_id c = def_equipment_id NEW \<and> return_date c = None)
                 (eq_checkouts db)
            then set_equipment_status (def_equipment_id NEW) CheckedOut db
            else set_equipment_status (def_equipment_id NEW) Available db)
         else db)
      else db)"

section \<open>Row-level security policies\<close>

text \<open>
  \<open>auth\<close> is \<^verbatim>\<open>auth.uid()\<close>: the identity of the Supabase session, \<open>None\<close> for a
  request without one. Every policy is granted \<^verbatim>\<open>TO authenticated\<close>, so a request
  without a session passes none of them.
\<close>

definition auth_is_admin_or_chair :: "database \<Rightarrow> uuid option \<Rightarrow> bool" where
  "auth_is_admin_or_chair db auth =
     list_ex (\<lambda>u. Some (u_id u) = auth \<and> (role u = Admin \<or> role u = Chair)) (users db)"

text \<open>"Users can create checkouts"\<close>
definition policy_checkouts_insert :: "uuid option \<Rightarrow> checkout \<Rightarrow> bool" where
  "policy_checkouts_insert auth row = (auth = Some (co_user_id row))"

text \<open>"Users can update own checkouts or admin/chair can update any"\<close>
definition policy_checkouts_update :: "database \<Rightarrow> uuid option \<Rightarrow> checkout \<Rightarrow> bool" where
  "policy_checkouts_update db auth row =
     (auth = Some (co_user_id row) \<or> auth_is_admin_or_chair db auth)"

text \<open>"Users can report deficiencies"\<close>
definition policy_deficiencies_insert :: "uuid option \<Rightarrow> deficiency \<Rightarrow> bool" where
  "policy_deficiencies_insert auth row = (auth = Some (reported_by row))"

text \<open>"Deficiencies updatable by admin/chair"\<close>
definition policy_deficiencies_update :: "database \<Rightarrow> uuid option \<Rightarrow> bool" where
  "policy_deficiencies_update db auth = auth_is_admin_or_chair db auth"

section \<open>The four writes the application issues\<close>

text \<open>
  An insert that fails its policy's \<^verbatim>\<open>WITH CHECK\<close> is rejected with an error and
  writes nothing. An update sees only the rows that pass the policy's \<^verbatim>\<open>USING\<close>;
  when none is left it changes nothing and reports no error. \<open>id\<close> is the primary key
  of each table: an insert whose identifier is already in the table is rejected, and an
  update \<^verbatim>\<open>WHERE id = x\<close> has at most one row, which is \<open>OLD\<close> for the row trigger.
  The triggers run after the write, on the written table.
\<close>

datatype db_error = RLSViolation | UniqueViolation

text \<open>
  \<^verbatim>\<open>supabase.from('eq_checkouts').insert({equipment_id, user_id, expected_return,
  use_type, purpose})\<close>: the other columns take their defaults (\<open>id\<close> generated,
  \<open>checkout_date = NOW()\<close>, \<open>return_date\<close> and \<open>return_condition\<close> null).
\<close>

definition insert_checkout ::
    "uuid option \<Rightarrow> uuid \<Rightarrow> instant \<Rightarrow> uuid \<Rightarrow> uuid \<Rightarrow> day option \<Rightarrow> use_type \<Rightarrow> string
      \<Rightarrow> database \<Rightarrow> db_error + database" where
  "insert_checkout auth new_id now equipment_id user_id expected ut purp db =
     (let NEW = \<lparr>co_id = new_id, co_equipment_id = equipment_id, co_user_id = user_id,
                 checkout_date = now, expected_return = expected, return_date = None,
                 use_type = ut, purpose = purp, return_condition = None\<rparr>
      in if \<not> policy_checkouts_insert auth NEW then Inl RLSViolation
         else if new_id \<in> set (map co_id (eq_checkouts db)) then Inl UniqueViolation
         else Inr (update_equipment_status_on_checkout NEW
                     (db\<lparr>eq_checkouts := eq_checkouts db @ [NEW]\<rparr>)))"

text \<open>
  \<^verbatim>\<open>supabase.from('eq_checkouts').update({return_date, return_condition}).eq('id', cid)\<close>
\<close>

definition update_checkout_return ::
    "uuid option \<Rightarrow> uuid \<Rightarrow> instant \<Rightarrow> return_condition \<Rightarrow> database \<Rightarrow> database" where
  "update_checkout_return auth cid now cond db =
     (case find (\<lambda>c. co_id c = cid \<and> policy_checkouts_update db auth c) (eq_checkouts db) of
        None \<Rightarrow> db
      | Some OLD \<Rightarrow>
          update_equipment_status_on_return OLD
            (OLD\<lparr>return_date := Some now, return_condition := Some cond\<rparr>)
            (db\<lparr>eq_checkouts :=
                  map (\<lambda>c. if co_id c = cid \<and> policy_checkouts_update db auth c
                           then c\<lparr>return_date := Some now, return_condition := Some cond\<rparr>
                           else c) (eq_checkouts db)\<rparr>))"

text \<open>
  \<^verbatim>\<open>supabase.from('eq_deficiencies').insert({equipment_id, checkout_id, reported_by,
  description, severity})\<close>: \<open>status\<close> takes its default \<open>pending\<close>, \<open>reported_date\<close> is
  \<open>CURRENT_DATE\<close>.
\<close>

definition insert_deficiency ::
    "uuid option \<Rightarrow> uuid \<Rightarrow> day \<Rightarrow> uuid \<Rightarrow> uuid option \<Rightarrow> uuid \<Rightarrow> string \<Rightarrow> severity
      \<Rightarrow> database \<Rightarrow> db_error + database" where
  "insert_deficiency auth new_id today equipment_id cid reporter descr sev db =
     (let NEW = \<lparr>def_id = new_id, def_equipment_id = equipment_id, checkout_id = cid,
                 reported_by = reporter, reported_date = today, description = descr,
                 severity = sev, def_status = Pending, resolved_by = None,
                 resolved_date = None, resolution_notes = None\<rparr>
      in if \<not> policy_deficiencies_insert auth NEW then Inl RLSViolation
         else if new_id \<in> set (map def_id (eq_deficiencies db)) then Inl UniqueViolation
         else Inr (update_equipment_on_deficiency INSERT None NEW
                     (db\<lparr>eq_deficiencies := eq_deficiencies db @ [NEW]\<rparr>)))"

text \<open>
  \<^verbatim>\<open>supabase.from('eq_deficiencies').update({status: 'resolved', resolved_by,
  resolved_date, resolution_notes: 'Resolved'}).eq('id', defId)\<close>
\<close>

definition resolve_row :: "uuid \<Rightarrow> day \<Rightarrow> deficiency \<Rightarrow> deficiency" where
  "resolve_row resolver today d =
     d\<lparr>def_status := Resolved, resolved_by := Some resolver, resolved_date := Some today,
       resolution_notes := Some ''Resolved''\<rparr>"

definition update_deficiency_resolve ::
    "uuid option \<Rightarrow> uuid \<Rightarrow> uuid \<Rightarrow> day \<Rightarrow> database \<Rightarrow> database" where
  "update_deficiency_resolve auth defId resolver today db =
     (if \<not> policy_deficiencies_update db auth then db
      else case find (\<lambda>d. def_id d = defId) (eq_deficiencies db) of
        None \<Rightarrow> db
      | Some OLD \<Rightarrow>
          update_equipment_on_deficiency UPDATE (Some OLD) (resolve_row resolver today OLD)
            (db\<lparr>eq_deficiencies :=
                  map (\<lambda>d. if def_id d = defId then resolve_row resolver today d else d)
                    (eq_deficiencies db)\<rparr>))"

section \<open>The handlers of App.jsx\<close>

text \<open>
  The handlers read the component's state, a snapshot fetched earlier, and write to the
  data store. The snapshot is refreshed by \<open>fetchAllData\<close>, which the handlers start
  without awaiting; it is therefore not part of a handler's own effect. The handlers are
  reachable only with a user logged in (the component renders the login form otherwise),
  so \<open>user\<close> is always there. \<open>session\<close> is the Supabase session the client sends with
  its requests: \<open>handleChairLogin\<close> signs in and has one, \<open>handleMemberLogin\<close> only
  looks the member up and has none.
\<close>

record checkoutForm =
  useType :: use_type
  cf_purpose :: string
  expectedReturn :: "day option"

record returnForm =
  condition :: return_condition
  deficiencyDesc :: string
  rf_severity :: severity

record client =
  user :: user_row
  session :: "uuid option"
  checkouts :: "checkout list"
  selectedEquipment :: "equipment option"
  checkoutForm :: checkoutForm
  returnForm :: returnForm

datatype notification_type = Success | Warning | Error

type_synonym notification = "string \<times> notification_type"

definition initialCheckoutForm :: checkoutForm where
  "initialCheckoutForm = \<lparr>useType = Club, cf_purpose = '''', expectedReturn = None\<rparr>"

definition initialReturnForm :: returnForm where
  "initialReturnForm = \<lparr>condition = Good, deficiencyDesc = '''', rf_severity = Minor\<rparr>"

text \<open>
  Each handler returns the notification it shows (\<open>None\<close> when it returns without
  showing one), the component state and the data store. \<open>new_id\<close>, \<open>now\<close> and \<open>today\<close>
  are the identifier the store generates and the clock.
\<close>

definition handleCheckout ::
    "uuid \<Rightarrow> instant \<Rightarrow> client \<Rightarrow> database \<Rightarrow> notification option \<times> client \<times> database" where
  "handleCheckout new_id now cl db =
     (case selectedEquipment cl of
        None \<Rightarrow> (None, cl, db)
      | Some sel \<Rightarrow>
          if status sel \<noteq> Available then (None, cl, db)
          else
            (case insert_checkout (session cl) new_id now (eq_id sel) (u_id (user cl))
                    (expectedReturn (checkoutForm cl)) (useType (checkoutForm cl))
                    (cf_purpose (checkoutForm cl)) db of
               Inl err \<Rightarrow> (Some (''Error checking out equipment'', Error), cl, db)
             | Inr db' \<Rightarrow>
                 (Some (name sel @ '' checked out successfully'', Success),
                  cl\<lparr>selectedEquipment := None, checkoutForm := initialCheckoutForm\<rparr>, db')))"

text \<open>
  A Supabase request resolves to a result with an \<open>error\<close> field; it does not throw.
  \<open>handleReturn\<close> and \<open>resolveDeficiency\<close> await their writes without reading that
  field, so a rejected write is not noticed and their \<open>catch\<close> branches are not entered.
\<close>

definition handleReturn ::
    "uuid \<Rightarrow> instant \<Rightarrow> day \<Rightarrow> client \<Rightarrow> database \<Rightarrow> notification option \<times> client \<times> database" where
  "handleReturn new_id now today cl db =
     (case selectedEquipment cl of
        None \<Rightarrow> (None, cl, db)
      | Some sel \<Rightarrow>
          (case find (\<lambda>c. co_equipment_id c = eq_id sel \<and> return_date c = None) (checkouts cl) of
             None \<Rightarrow> (None, cl, db)
           | Some activeCheckout \<Rightarrow>
               let db1 = update_checkout_return (session cl) (co_id activeCheckout) now
                           (if condition (returnForm cl) = Good then Good else Deficiency) db;
                   cl' = cl\<lparr>selectedEquipment := None, returnForm := initialReturnForm\<rparr>
               in if condition (returnForm cl) = Deficiency \<and> deficiencyDesc (returnForm cl) \<noteq> ''''
                  then
                    (Some (name sel @ '' returned with deficiency reported'', Warning), cl',
                     case insert_deficiency (session cl) new_id today (eq_id sel)
                            (Some (co_id activeCheckout)) (u_id (user cl))
                            (deficiencyDesc (returnForm cl)) (rf_severity (returnForm cl)) db1 of
                       Inl err \<Rightarrow> db1
                     | Inr db2 \<Rightarrow> db2)
                  else (Some (name sel @ '' returned successfully'', Success), cl', db1)))"

definition resolveDeficiency ::
    "uuid \<Rightarrow> day \<Rightarrow> client \<Rightarrow> database \<Rightarrow> notification option \<times> client \<times> database" where
  "resolveDeficiency defId today cl db =
     (Some (''Deficiency marked as resolved'', Success), cl,
      update_deficiency_resolve (session cl) defId (u_id (user cl)) today db)"

section \<open>Predicates on the data store\<close>

text \<open>
  The status recompute algorithm of the specification, following its words: a pending
  major deficiency gives \<open>needs-repair\<close>, else an open checkout gives \<open>checked-out\<close>,
  else \<open>available\<close>. The code has no such function; the triggers above are compared with it.
\<close>

definition pending_major :: "database \<Rightarrow> uuid \<Rightarrow> bool" where
  "pending_major db eid =
     list_ex (\<lambda>d. def_equipment_id d = eid \<and> severity d = Major \<and> def_status d = Pending)
       (eq_deficiencies db)"

definition open_checkouts :: "database \<Rightarrow> uuid \<Rightarrow> checkout list" where
  "open_checkouts db eid =
     filter (\<lambda>c. co_equipment_id c = eid \<and> return_date c = None) (eq_checkouts db)"

definition recompute_status :: "database \<Rightarrow> uuid \<Rightarrow> equipment_status" where
  "recompute_status db eid =
     (if pending_major db eid then NeedsRepair
      else if open_checkouts db eid \<noteq> [] then CheckedOut
      else Available)"

text \<open>The equipment with identifier \<open>eid\<close> has the status the recompute function gives.\<close>

definition status_ok :: "database \<Rightarrow> uuid \<Rightarrow> bool" where
  "status_ok db eid =
     list_all (\<lambda>e. eq_id e = eid \<longrightarrow> status e = recompute_status db eid) (eq_equipment db)"

text \<open>The same, for every row of the equipment table.\<close>

definition status_invariant :: "database \<Rightarrow> bool" where
  "status_invariant db =
     list_all (\<lambda>e. status e = recompute_status db (eq_id e)) (eq_equipment db)"

text \<open>At most one open checkout for each piece of equipment.\<close>

definition one_open_checkout :: "database \<Rightarrow> bool" where
  "one_open_checkout db =
     list_all (\<lambda>c. length (open_checkouts db (co_equipment_id c)) \<le> 1) (eq_checkouts db)"

text \<open>Equipment shown as available has no open checkout.\<close>

definition available_means_free :: "database \<Rightarrow> bool" where
  "available_means_free db =
     list_all (\<lambda>e. status e = Available \<longrightarrow> open_checkouts db (eq_id e) = []) (eq_equipment db)"

text \<open>The two facts about checkouts that the handlers keep, together.\<close>

definition checkout_invariant :: "database \<Rightarrow> bool" where
  "checkout_invariant db = (one_open_checkout db \<and> available_means_free db)"

text \<open>
  The selected equipment of the component state is a current row of the equipment table
  (the snapshot is not stale).
\<close>

definition fresh_selection :: "client \<Rightarrow> database \<Rightarrow> bool" where
  "fresh_selection cl db =
     (case selectedEquipment cl of None \<Rightarrow> True | Some sel \<Rightarrow> sel \<in> set (eq_equipment db))"

text \<open>The \<^verbatim>\<open>PRIMARY KEY\<close> constraints of the three tables.\<close>

definition primary_keys :: "database \<Rightarrow> bool" where
  "primary_keys db =
     (distinct (map eq_id (eq_equipment db)) \<and> distinct (map co_id (eq_checkouts db))
      \<and> distinct (map def_id (eq_deficiencies db)))"

text \<open>The store after a request: a rejected insert leaves it as it was.\<close>

definition committed :: "database \<Rightarrow> db_error + database \<Rightarrow> database" where
  "committed db r = (case r of Inl err \<Rightarrow> db | Inr db' \<Rightarrow> db')"

text \<open>
  The checkout \<open>coid\<close> is on equipment with no pending major deficiency and at most one
  open checkout.
\<close>

definition plain_return :: "database \<Rightarrow> uuid \<Rightarrow> bool" where
  "plain_return db coid =
     list_all (\<lambda>c. co_id c = coid \<longrightarrow>
                 \<not> pending_major db (co_equipment_id c)
                 \<and> length (open_checkouts db (co_equipment_id c)) \<le> 1) (eq_checkouts db)"

text \<open>Whether a handler showed an error notification.\<close>

definition reports_error :: "notification option \<Rightarrow> bool" where
  "reports_error n = (case n of Some (msg, Error) \<Rightarrow> True | _ \<Rightarrow> False)"

section \<open>Sample data\<close>

definition u_admin :: user_row where
  "u_admin = \<lparr>u_id = 1, employee_number = 1001, first_name = ''Ann'', last_name = ''Lee'',
               role = Admin\<rparr>"

definition u_vol :: user_row where
  "u_vol = \<lparr>u_id = 2, employee_number = 1002, first_name = ''Bob'', last_name = ''Ray'',
             role = Volunteer\<rparr>"

definition eq1 :: equipment where
  "eq1 = \<lparr>eq_id = 10, equipment_code = ''EQ001'', name = ''Mower'', category = Grounds,
           location = None, status = Available, last_maintenance = None, eq_notes = None\<rparr>"

definition db0 :: database where
  "db0 = \<lparr>eq_equipment = [eq1], eq_checkouts = [], eq_deficiencies = [],
           users = [u_admin, u_vol]\<rparr>"

definition cl_admin :: client where
  "cl_admin = \<lparr>user = u_admin, session = Some 1, checkouts = [], selectedEquipment = Some eq1,
                checkoutForm = initialCheckoutForm, returnForm = initialReturnForm\<rparr>"

definition cl_vol :: client where
  "cl_vol = \<lparr>user = u_vol, session = Some 2, checkouts = [], selectedEquipment = Some eq1,
              checkoutForm = initialCheckoutForm, returnForm = initialReturnForm\<rparr>"

text \<open>A checkout of the mower, a major deficiency reported on it, then its return.\<close>

definition db_checked_out :: database where
  "db_checked_out = committed db0 (insert_checkout (Some 1) 100 0 10 1 None Club '''' db0)"

definition db_reported :: database where
  "db_reported =
     committed db_checked_out
       (insert_deficiency (Some 1) 200 0 10 None 1 ''blade cracked'' Major db_checked_out)"



text \<open>The mower returned in good condition; the reported deficiency resolved by the admin.\<close>

definition db_good_return :: database where
  "db_good_return = update_checkout_return (Some 1) 100 5 Good db_checked_out"

definition db_resolved :: database where
  "db_resolved = update_deficiency_resolve (Some 1) 200 1 3 db_reported"

definition cl_return :: client where
  "cl_return = cl_admin\<lparr>checkouts := eq_checkouts db_checked_out,
                        selectedEquipment := Some (eq1\<lparr>status := CheckedOut\<rparr>)\<rparr>"

definition d200 :: deficiency where
  "d200 = \<lparr>def_id = 200, def_equipment_id = 10, checkout_id = None,
            reported_by = 1, reported_date = 0, description = ''blade cracked'',
            severity = Major, def_status = Pending, resolved_by = None,
            resolved_date = None, resolution_notes = None\<rparr>"

section \<open>Query layer: dates (date-fns)\<close>

text \<open>
  The helpers call the date-fns library, which is not part of the repository. Its
  functions are modelled from their documented behaviour on a local time line without
  daylight-saving shifts: an instant is a number of milliseconds, local midnights are the
  multiples of \<open>msPerDay\<close>, and a \<^verbatim>\<open>DATE\<close> column (\<^verbatim>\<open>yyyy-MM-dd\<close>) parses to the
  local midnight of its day. \<open>now\<close> is the clock, read by \<^verbatim>\<open>new Date()\<close> and by \<open>isPast\<close>;
  the reads of one call are taken to be the same instant.
\<close>

definition msPerDay :: int where
  "msPerDay = 86400000"

definition startOfDay :: "instant \<Rightarrow> instant" where
  "startOfDay t = t - t mod msPerDay"

definition parseISO :: "day \<Rightarrow> instant" where
  "parseISO d = d * msPerDay"

definition isPast :: "instant \<Rightarrow> instant \<Rightarrow> bool" where
  "isPast now t = (t < now)"

definition addDays :: "instant \<Rightarrow> int \<Rightarrow> instant" where
  "addDays t n = t + n * msPerDay"

text \<open>The number of full days between two instants, truncated towards zero.\<close>

definition differenceInDays :: "instant \<Rightarrow> instant \<Rightarrow> int" where
  "differenceInDays l r =
     (if r \<le> l then (l - r) div msPerDay else - ((r - l) div msPerDay))"

section \<open>Query layer: sorting\<close>

text \<open>
  \<^verbatim>\<open>Array.prototype.sort\<close> with a comparator: \<open>a\<close> stays before \<open>b\<close> unless
  \<open>cmp a b > 0\<close>, and the sort is stable. For a comparator that orders consistently the
  result is that of inserting each element, from the right, before the first element it
  does not have to follow.
\<close>

fun js_insert :: "('a \<Rightarrow> 'a \<Rightarrow> int) \<Rightarrow> 'a \<Rightarrow> 'a list \<Rightarrow> 'a list" where
  "js_insert cmp x [] = [x]"
| "js_insert cmp x (y # ys) = (if cmp x y \<le> 0 then x # y # ys else y # js_insert cmp x ys)"

definition js_sort :: "('a \<Rightarrow> 'a \<Rightarrow> int) \<Rightarrow> 'a list \<Rightarrow> 'a list" where
  "js_sort cmp xs = foldr (js_insert cmp) xs []"

section \<open>Query layer: getOverdueCheckouts and getMaintenanceDue (App.jsx)\<close>

text \<open>\<^verbatim>\<open>{...c, daysOverdue}\<close>: the checkout with one more field.\<close>

record overdue_checkout =
  oc_checkout :: checkout
  daysOverdue :: int

text \<open>
  The map stage reads \<open>expected_return\<close> again; the filter has kept only checkouts that
  have one, so the \<open>None\<close> case of the map is never reached.
\<close>

definition getOverdueCheckouts :: "instant \<Rightarrow> checkout list \<Rightarrow> overdue_checkout list" where
  "getOverdueCheckouts now cs =
     (let today = startOfDay now in
      js_sort (\<lambda>a b. daysOverdue b - daysOverdue a)
        (map (\<lambda>c. \<lparr>oc_checkout = c,
                    daysOverdue = (case expected_return c of
                                     None \<Rightarrow> 0
                                   | Some d \<Rightarrow> differenceInDays today (parseISO d))\<rparr>)
           (filter (\<lambda>c. if return_date c \<noteq> None then False
                         else case expected_return c of
                                None \<Rightarrow> False
                              | Some d \<Rightarrow> isPast now (startOfDay (parseISO d)))
              cs)))"

fun MAINTENANCE_INTERVALS :: "category \<Rightarrow> int option" where
  "MAINTENANCE_INTERVALS Grounds = Some 90"
| "MAINTENANCE_INTERVALS Tools = Some 180"
| "MAINTENANCE_INTERVALS Cleaning = Some 90"
| "MAINTENANCE_INTERVALS Electrical = Some 365"
| "MAINTENANCE_INTERVALS Events = None"
| "MAINTENANCE_INTERVALS Shop = Some 180"
| "MAINTENANCE_INTERVALS Range = Some 90"
| "MAINTENANCE_INTERVALS Other = None"

text \<open>\<^verbatim>\<open>{...eq, daysPastDue, nextDueDate, neverMaintained}\<close>\<close>

record maintenance_due =
  md_equipment :: equipment
  daysPastDue :: "int option"
  nextDueDate :: "instant option"
  neverMaintained :: bool

text \<open>\<^verbatim>\<open>x || 0\<close> on a number or null.\<close>

definition or_zero :: "int option \<Rightarrow> int" where
  "or_zero x = (case x of None \<Rightarrow> 0 | Some n \<Rightarrow> n)"

definition maintenance_cmp :: "maintenance_due \<Rightarrow> maintenance_due \<Rightarrow> int" where
  "maintenance_cmp a b =
     (if neverMaintained a \<and> \<not> neverMaintained b then - 1
      else if \<not> neverMaintained a \<and> neverMaintained b then 1
      else or_zero (daysPastDue b) - or_zero (daysPastDue a))"

text \<open>
  \<^verbatim>\<open>!interval\<close> holds for a missing interval and for 0. The map stage looks the interval
  up again; the filter has kept only categories that have one, so its \<open>None\<close> case is
  never reached.
\<close>

definition getMaintenanceDue :: "instant \<Rightarrow> equipment list \<Rightarrow> maintenance_due list" where
  "getMaintenanceDue now equipment =
     (let today = startOfDay now in
      js_sort maintenance_cmp
        (map (\<lambda>eq. case last_maintenance eq of
                      None \<Rightarrow> \<lparr>md_equipment = eq, daysPastDue = None, nextDueDate = None,
                                neverMaintained = True\<rparr>
                    | Some lm \<Rightarrow>
                        let nextDue = addDays (parseISO lm)
                                        (or_zero (MAINTENANCE_INTERVALS (category eq)))
                        in \<lparr>md_equipment = eq,
                            daysPastDue = Some (differenceInDays today nextDue),
                            nextDueDate = Some nextDue, neverMaintained = False\<rparr>)
           (filter (\<lambda>eq. case MAINTENANCE_INTERVALS (category eq) of
                           None \<Rightarrow> False
                         | Some interval \<Rightarrow>
                             if interval = 0 then False
                             else case last_maintenance eq of
                                    None \<Rightarrow> True
                                  | Some lm \<Rightarrow>
                                      let nextDue = addDays (parseISO lm) interval
                                      in isPast now nextDue
                                         \<or> differenceInDays nextDue today \<le> 14)
              equipment)))"

section \<open>The query layer as the specification words it\<close>

text \<open>
  The row \<open>getOverdueCheckouts\<close> produces for one checkout, in days: the checkout is open,
  has an expected-return date, and the start of that day lies before the instant \<open>now\<close>;
  days overdue is today's day number minus the expected day.
\<close>

definition overdue_row :: "instant \<Rightarrow> checkout \<Rightarrow> overdue_checkout option" where
  "overdue_row now c =
     (case return_date c of
        Some t \<Rightarrow> None
      | None \<Rightarrow>
          (case expected_return c of
             None \<Rightarrow> None
           | Some d \<Rightarrow>
               if d * msPerDay < now
               then Some \<lparr>oc_checkout = c, daysOverdue = now div msPerDay - d\<rparr>
               else None))"

text \<open>
  The specification's criterion: expected-return date strictly before the date of \<open>now\<close>.
\<close>

definition overdue_by_date :: "instant \<Rightarrow> checkout \<Rightarrow> bool" where
  "overdue_by_date now c =
     (return_date c = None \<and>
      (case expected_return c of None \<Rightarrow> False | Some d \<Rightarrow> d < now div msPerDay))"

text \<open>
  The row \<open>getMaintenanceDue\<close> produces for one piece of equipment: its category has an
  interval; never maintained, it is always due; else \<open>nextDue\<close> is the last maintenance
  plus the interval, and the item is due when \<open>nextDue\<close> is in the past or at most 14 days
  after today.
\<close>

definition maintenance_row :: "instant \<Rightarrow> equipment \<Rightarrow> maintenance_due option" where
  "maintenance_row now eq =
     (case MAINTENANCE_INTERVALS (category eq) of
        None \<Rightarrow> None
      | Some interval \<Rightarrow>
          (case last_maintenance eq of
             None \<Rightarrow> Some \<lparr>md_equipment = eq, daysPastDue = None, nextDueDate = None,
                             neverMaintained = True\<rparr>
           | Some lm \<Rightarrow>
               if (lm + interval) * msPerDay < now \<or> (lm + interval) - now div msPerDay \<le> 14
               then Some \<lparr>md_equipment = eq,
                          daysPastDue = Some (now div msPerDay - (lm + interval)),
                          nextDueDate = Some ((lm + interval) * msPerDay),
                          neverMaintained = False\<rparr>
               else None))"

text \<open>Never-maintained items first, then by days past due, descending.\<close>

definition maintenance_before :: "maintenance_due \<Rightarrow> maintenance_due \<Rightarrow> bool" where
  "maintenance_before a b =
     (if neverMaintained a then True
      else \<not> neverMaintained b \<and> or_zero (daysPastDue b) \<le> or_zero (daysPastDue a))"

text \<open>Sample rows for the query layer.\<close>

definition co_due :: "uuid \<Rightarrow> day \<Rightarrow> checkout" where
  "co_due i d = \<lparr>co_id = i, co_equipment_id = 10, co_user_id = 1, checkout_date = 0,
                  expected_return = Some d, return_date = None, use_type = Club,
                  purpose = ''mowing'', return_condition = None\<rparr>"

definition eq_maint :: "uuid \<Rightarrow> category \<Rightarrow> day option \<Rightarrow> equipment" where
  "eq_maint i cat lm = \<lparr>eq_id = i, equipment_code = ''EQ'', name = ''Item'', category = cat,
                         location = None, status = Available, last_maintenance = lm,
                         eq_notes = None\<rparr>"

section \<open>CSV export (App.jsx)\<close>

definition comma :: char where
  "comma = CHR '',''"

definition dquote :: char where
  "dquote = CHR 0x22"

definition newline :: char where
  "newline = CHR 0x0A"






section \<open>Reading CSV text back\<close>














section \<open>Lifecycle properties\<close>

lemma set_equipment_status_tables [simp]:
  "eq_checkouts (set_equipment_status E s db) = eq_checkouts db"
  "eq_deficiencies (set_equipment_status E s db) = eq_deficiencies db"
  "users (set_equipment_status E s db) = users db"
  "eq_equipment (set_equipment_status E s db) =
     map (\<lambda>e. if eq_id e = E then e\<lparr>status := s\<rparr> else e) (eq_equipment db)"
  by (simp_all add: set_equipment_status_def)

lemma recompute_status_cong:
  "eq_checkouts db' = eq_checkouts db \<Longrightarrow> eq_deficiencies db' = eq_deficiencies db \<Longrightarrow>
     recompute_status db' eid = recompute_status db eid"
  by (simp add: recompute_status_def pending_major_def open_checkouts_def)

lemma status_ok_iff:
  "status_ok db e0 \<longleftrightarrow>
     (\<forall>e \<in> set (eq_equipment db). eq_id e = e0 \<longrightarrow> status e = recompute_status db e0)"
  by (simp add: status_ok_def list_all_iff)

lemma status_invariant_iff: "status_invariant db \<longleftrightarrow> (\<forall>e0. status_ok db e0)"
  by (auto simp: status_invariant_def status_ok_def list_all_iff)

lemma set_equipment_status_row:
  assumes "e \<in> set (eq_equipment (set_equipment_status E s db))"
  shows "(eq_id e = E \<longrightarrow> status e = s) \<and> (eq_id e \<noteq> E \<longrightarrow> e \<in> set (eq_equipment db))"
proof -
  from assms
  have "e \<in> (\<lambda>x. if eq_id x = E then x\<lparr>status := s\<rparr> else x) ` set (eq_equipment db)"
    by (simp only: set_equipment_status_tables set_map)
  then obtain x where x: "x \<in> set (eq_equipment db)"
      "e = (if eq_id x = E then x\<lparr>status := s\<rparr> else x)"
    by blast
  show ?thesis
  proof (cases "eq_id x = E")
    case True
    with x show ?thesis by simp
  next
    case False
    with x show ?thesis by simp
  qed
qed

lemma status_ok_set:
  assumes "status_ok old_db e0"
    and "e0 \<noteq> E \<Longrightarrow> recompute_status db e0 = recompute_status old_db e0"
    and "e0 = E \<Longrightarrow> recompute_status db E = s"
    and "eq_equipment db = eq_equipment old_db"
  shows "status_ok (set_equipment_status E s db) e0"
  unfolding status_ok_iff
proof (intro ballI impI)
  fix e
  assume e: "e \<in> set (eq_equipment (set_equipment_status E s db))" "eq_id e = e0"
  have r: "recompute_status (set_equipment_status E s db) e0 = recompute_status db e0"
    by (rule recompute_status_cong) simp_all
  note row = set_equipment_status_row [OF e(1)]
  show "status e = recompute_status (set_equipment_status E s db) e0"
  proof (cases "e0 = E")
    case True
    with e row assms(3) r show ?thesis by simp
  next
    case False
    with e row have "e \<in> set (eq_equipment old_db)" by (simp add: assms(4))
    with e(2) assms(1) have "status e = recompute_status old_db e0"
      by (simp add: status_ok_iff)
    with assms(2) False r show ?thesis by simp
  qed
qed

lemma status_ok_keep:
  assumes "status_ok old_db e0"
    and "recompute_status db e0 = recompute_status old_db e0"
    and "eq_equipment db = eq_equipment old_db"
  shows "status_ok db e0"
  using assms by (simp add: status_ok_iff)

lemma pending_major_iff:
  "pending_major db eid \<longleftrightarrow>
     (\<exists>d \<in> set (eq_deficiencies db). def_equipment_id d = eid \<and> severity d = Major \<and> def_status d = Pending)"
  by (auto simp: pending_major_def list_ex_iff)

lemma find_distinct_key:
  "distinct (map k xs) \<Longrightarrow> find (\<lambda>x. k x = a \<and> P x) xs = Some y \<Longrightarrow> x \<in> set xs \<Longrightarrow> k x = a \<Longrightarrow> x = y"
proof -
  assume d: "distinct (map k xs)" and f: "find (\<lambda>x. k x = a \<and> P x) xs = Some y"
    and x: "x \<in> set xs" "k x = a"
  from f have "y \<in> set xs" "k y = a"
    by (auto simp: find_Some_iff)
  with d x show "x = y"
    by (auto simp: distinct_map dest: inj_onD)
qed

lemma inv_insert_deficiency:
  assumes inv: "status_ok db e0"
  shows "status_ok (committed db (insert_deficiency auth i t eid cid rep descr sev db)) e0"
proof -
  define NEW where "NEW = \<lparr>def_id = i, def_equipment_id = eid, checkout_id = cid,
                 reported_by = rep, reported_date = t, description = descr,
                 severity = sev, def_status = Pending, resolved_by = None,
                 resolved_date = None, resolution_notes = None\<rparr>"
  define db1 where "db1 = db\<lparr>eq_deficiencies := eq_deficiencies db @ [NEW]\<rparr>"
  have NEW: "def_equipment_id NEW = eid" "severity NEW = sev" "def_status NEW = Pending"
    by (simp_all add: NEW_def)
  have eqs: "eq_equipment db1 = eq_equipment db" "eq_checkouts db1 = eq_checkouts db"
      "eq_deficiencies db1 = eq_deficiencies db @ [NEW]"
    by (simp_all add: db1_def)
  have pm: "pending_major db1 e = (pending_major db e \<or> (e = eid \<and> sev = Major))" for e
    by (auto simp: pending_major_def eqs NEW)
  have oc: "open_checkouts db1 e = open_checkouts db e" for e
    by (simp add: open_checkouts_def eqs)
  have ins: "committed db (insert_deficiency auth i t eid cid rep descr sev db)
      = db \<or> committed db (insert_deficiency auth i t eid cid rep descr sev db)
      = update_equipment_on_deficiency INSERT None NEW db1"
    by (simp add: committed_def insert_deficiency_def Let_def NEW_def db1_def)
  have "status_ok (update_equipment_on_deficiency INSERT None NEW db1) e0"
  proof (cases sev)
    case Minor
    then have "recompute_status db1 e0 = recompute_status db e0"
      by (simp add: recompute_status_def pm oc)
    with inv have "status_ok db1 e0"
      by (rule status_ok_keep) (simp add: eqs)
    with Minor show ?thesis
      by (simp add: update_equipment_on_deficiency_def NEW)
  next
    case Major
    have "status_ok (set_equipment_status eid NeedsRepair db1) e0"
      using inv
    proof (rule status_ok_set)
      show "recompute_status db1 e0 = recompute_status db e0" if "e0 \<noteq> eid"
        using that by (simp add: recompute_status_def pm oc)
      show "recompute_status db1 eid = NeedsRepair"
        using Major by (simp add: recompute_status_def pm)
      show "eq_equipment db1 = eq_equipment db" by (simp add: eqs)
    qed
    with Major show ?thesis
      by (simp add: update_equipment_on_deficiency_def NEW)
  qed
  with ins inv show ?thesis by auto
qed

lemma inv_insert_checkout:
  assumes inv: "status_ok db e0" and guard: "e0 \<noteq> eid \<or> \<not> pending_major db eid"
  shows "status_ok (committed db (insert_checkout auth i now eid uid ex ut p db)) e0"
proof -
  define NEW where "NEW = \<lparr>co_id = i, co_equipment_id = eid, co_user_id = uid,
                 checkout_date = now, expected_return = ex, return_date = None,
                 use_type = ut, purpose = p, return_condition = None\<rparr>"
  define db1 where "db1 = db\<lparr>eq_checkouts := eq_checkouts db @ [NEW]\<rparr>"
  have NEW: "co_equipment_id NEW = eid" "return_date NEW = None"
    by (simp_all add: NEW_def)
  have eqs: "eq_equipment db1 = eq_equipment db" "eq_deficiencies db1 = eq_deficiencies db"
      "eq_checkouts db1 = eq_checkouts db @ [NEW]"
    by (simp_all add: db1_def)
  have pm: "pending_major db1 e = pending_major db e" for e
    by (simp add: pending_major_def eqs)
  have oc: "open_checkouts db1 e = open_checkouts db e @ (if e = eid then [NEW] else [])" for e
    by (auto simp: open_checkouts_def eqs NEW)
  have ins: "committed db (insert_checkout auth i now eid uid ex ut p db) = db
      \<or> committed db (insert_checkout auth i now eid uid ex ut p db)
          = set_equipment_status eid CheckedOut db1"
    by (simp add: committed_def insert_checkout_def Let_def NEW_def db1_def
        update_equipment_status_on_checkout_def)
  have "status_ok (set_equipment_status eid CheckedOut db1) e0"
    using inv
  proof (rule status_ok_set)
    show "recompute_status db1 e0 = recompute_status db e0" if "e0 \<noteq> eid"
      using that by (simp add: recompute_status_def pm oc)
    show "recompute_status db1 eid = CheckedOut" if "e0 = eid"
      using that guard by (simp add: recompute_status_def pm oc)
    show "eq_equipment db1 = eq_equipment db" by (simp add: eqs)
  qed
  with ins inv show ?thesis by auto
qed

lemma inv_resolve:
  assumes inv: "status_ok db e0" and pk: "primary_keys db"
  shows "status_ok (update_deficiency_resolve auth defId resolver today db) e0"
proof (cases "policy_deficiencies_update db auth")
  case False
  then show ?thesis using inv by (simp add: update_deficiency_resolve_def)
next
  case pol: True
  show ?thesis
  proof (cases "find (\<lambda>d. def_id d = defId) (eq_deficiencies db)")
    case None
    then show ?thesis using inv pol by (simp add: update_deficiency_resolve_def)
  next
    case (Some OLD)
    define E where "E = def_equipment_id OLD"
    define ds' where "ds' = map (\<lambda>d. if def_id d = defId then resolve_row resolver today d else d) (eq_deficiencies db)"
    define db1 where "db1 = db\<lparr>eq_deficiencies := ds'\<rparr>"
    have OLD: "OLD \<in> set (eq_deficiencies db)" "def_id OLD = defId"
      using Some by (auto simp: find_Some_iff)
    have uniq: "d = OLD" if "d \<in> set (eq_deficiencies db)" "def_id d = defId" for d
      using find_distinct_key [of def_id "eq_deficiencies db" defId "\<lambda>_. True" OLD d] pk Some that
      by (simp add: primary_keys_def)
    have pm_other: "pending_major db1 eid = pending_major db eid" if "eid \<noteq> E" for eid
      using that uniq unfolding pending_major_iff db1_def ds'_def E_def
      by (auto simp: resolve_row_def)
    have pm_E: "pending_major db1 E \<longleftrightarrow>
        (\<exists>d \<in> set (eq_deficiencies db). def_equipment_id d = E \<and> def_id d \<noteq> defId \<and> severity d = Major \<and> def_status d = Pending)"
      unfolding pending_major_iff db1_def ds'_def
      by (auto simp: resolve_row_def)
    have oc: "open_checkouts db1 eid = open_checkouts db eid" for eid
      by (simp add: open_checkouts_def db1_def)
    have ex_eq: "list_ex (\<lambda>d. def_equipment_id d = E \<and> def_id d \<noteq> defId \<and> severity d = Major \<and> def_status d = Pending) ds'
        = pending_major db1 E"
      unfolding pending_major_iff list_ex_iff db1_def ds'_def
      by (auto simp: resolve_row_def)
    have res: "update_deficiency_resolve auth defId resolver today db =
        update_equipment_on_deficiency UPDATE (Some OLD) (resolve_row resolver today OLD) db1"
      using Some pol by (simp add: update_deficiency_resolve_def db1_def ds'_def)
    have rc_other: "recompute_status db1 eid = recompute_status db eid" if "eid \<noteq> E" for eid
      using pm_other [OF that] oc by (simp add: recompute_status_def)
    have eqs: "eq_equipment db1 = eq_equipment db" "eq_checkouts db1 = eq_checkouts db" "eq_deficiencies db1 = ds'"
      by (simp_all add: db1_def)
    have NEW: "def_equipment_id (resolve_row resolver today OLD) = E" "def_id (resolve_row resolver today OLD) = defId"
       "def_status (resolve_row resolver today OLD) = Resolved"
      using OLD by (simp_all add: resolve_row_def E_def)
    show ?thesis
    proof (cases "def_status OLD = Pending \<and> \<not> pending_major db1 E")
      case True
      have "recompute_status db1 E = (if open_checkouts db E \<noteq> [] then CheckedOut else Available)"
        using True oc by (simp add: recompute_status_def)
      moreover have "list_ex (\<lambda>c. co_equipment_id c = E \<and> return_date c = None) (eq_checkouts db1) = (open_checkouts db E \<noteq> [])"
        by (auto simp: open_checkouts_def eqs list_ex_iff filter_empty_conv)
      ultimately have fire: "update_equipment_on_deficiency UPDATE (Some OLD)
            (resolve_row resolver today OLD) db1
          = set_equipment_status E (recompute_status db1 E) db1"
        using True by (simp add: update_equipment_on_deficiency_def NEW ex_eq eqs)
      show ?thesis
        unfolding res fire using inv
      proof (rule status_ok_set)
        show "recompute_status db1 e0 = recompute_status db e0" if "e0 \<noteq> E"
          using that by (rule rc_other)
        show "recompute_status db1 E = recompute_status db1 E" ..
        show "eq_equipment db1 = eq_equipment db" by (simp add: eqs)
      qed
    next
      case False
      have "recompute_status db1 eid = recompute_status db eid" for eid
      proof (cases "eid = E")
        case neq: False then show ?thesis by (rule rc_other)
      next
        case eqE: True
        have "pending_major db1 E = pending_major db E"
        proof (cases "def_status OLD = Pending")
          case True
          with False have p1: "pending_major db1 E" by simp
          then have "\<exists>d \<in> set (eq_deficiencies db). def_equipment_id d = E \<and> def_id d \<noteq> defId
                    \<and> severity d = Major \<and> def_status d = Pending"
            using pm_E by simp
          then have "pending_major db E" unfolding pending_major_iff by auto
          with p1 show ?thesis by simp
        next
          case np: False
          then have r: "def_status OLD = Resolved" by (cases "def_status OLD") auto
          have "(\<exists>d \<in> set (eq_deficiencies db). def_equipment_id d = E \<and> def_id d \<noteq> defId
                    \<and> severity d = Major \<and> def_status d = Pending) \<longleftrightarrow> pending_major db E"
            unfolding pending_major_iff using uniq r by auto
          with pm_E show ?thesis by simp
        qed
        then show ?thesis using oc eqE by (simp add: recompute_status_def)
      qed
      then have "status_ok db1 e0"
        by (intro status_ok_keep [OF inv]) (simp_all add: eqs)
      moreover have "update_equipment_on_deficiency UPDATE (Some OLD) (resolve_row resolver today OLD) db1 = db1"
        using False by (auto simp: update_equipment_on_deficiency_def NEW ex_eq eqs)
      ultimately show ?thesis unfolding res by simp
    qed
  qed
qed


lemma open_checkouts_nonempty_iff:
  "open_checkouts db eid \<noteq> [] \<longleftrightarrow>
     (\<exists>c \<in> set (eq_checkouts db). co_equipment_id c = eid \<and> return_date c = None)"
  by (auto simp: open_checkouts_def filter_empty_conv)

lemma filter_at_most_one:
  assumes "length (filter P xs) \<le> 1" "x \<in> set xs" "P x" "y \<in> set xs" "P y"
  shows "x = y"
proof -
  from assms(2-5) have xy: "x \<in> set (filter P xs)" "y \<in> set (filter P xs)" by simp_all
  from assms(1) xy(1) obtain z where "filter P xs = [z]"
    by (cases "filter P xs") auto
  with xy show ?thesis by simp
qed

lemma inv_return:
  assumes inv: "status_ok db e0" and pk: "primary_keys db"
    and guard: "\<forall>c \<in> set (eq_checkouts db). co_id c = cid \<longrightarrow>
        \<not> pending_major db (co_equipment_id c) \<and> length (open_checkouts db (co_equipment_id c)) \<le> 1"
  shows "status_ok (update_checkout_return auth cid now cond db) e0"
proof (cases "find (\<lambda>c. co_id c = cid \<and> policy_checkouts_update db auth c) (eq_checkouts db)")
  case None
  then show ?thesis using inv by (simp add: update_checkout_return_def)
next
  case (Some OLD)
  define E where "E = co_equipment_id OLD"
  define close where "close = (\<lambda>c::checkout. c\<lparr>return_date := Some now, return_condition := Some cond\<rparr>)"
  define db1 where "db1 = db\<lparr>eq_checkouts :=
      map (\<lambda>c. if co_id c = cid \<and> policy_checkouts_update db auth c then close c else c) (eq_checkouts db)\<rparr>"
  have OLD: "OLD \<in> set (eq_checkouts db)" "co_id OLD = cid" "policy_checkouts_update db auth OLD"
    using Some by (auto simp: find_Some_iff)
  have uniq: "c = OLD" if "c \<in> set (eq_checkouts db)" "co_id c = cid" for c
    using find_distinct_key [of co_id "eq_checkouts db" cid "policy_checkouts_update db auth" OLD c] pk Some that
    by (simp add: primary_keys_def)
  have res: "update_checkout_return auth cid now cond db =
      update_equipment_status_on_return OLD (close OLD) db1"
    unfolding update_checkout_return_def db1_def close_def using Some by simp
  have eqs: "eq_equipment db1 = eq_equipment db" "eq_deficiencies db1 = eq_deficiencies db"
    by (simp_all add: db1_def)
  have pm: "pending_major db1 eid = pending_major db eid" for eid
    by (simp add: pending_major_def eqs)
  have oc_other: "(open_checkouts db1 eid \<noteq> []) = (open_checkouts db eid \<noteq> [])" if "eid \<noteq> E" for eid
    unfolding open_checkouts_nonempty_iff db1_def using that uniq
    by (auto simp: close_def E_def)
  have rc_other: "recompute_status db1 eid = recompute_status db eid" if "eid \<noteq> E" for eid
    using oc_other [OF that] pm by (simp add: recompute_status_def)
  have NEW: "co_equipment_id (close OLD) = E" "return_date (close OLD) = Some now"
    by (simp_all add: close_def E_def)
  show ?thesis
  proof (cases "return_date OLD")
    case None
    have g: "\<not> pending_major db E" "length (open_checkouts db E) \<le> 1"
      using guard OLD by (auto simp: E_def)
    have "open_checkouts db1 E = []"
    proof (rule ccontr)
      assume "open_checkouts db1 E \<noteq> []"
      then obtain c where c: "c \<in> set (eq_checkouts db)" "co_equipment_id c = E" "return_date c = None"
          "\<not> (co_id c = cid \<and> policy_checkouts_update db auth c)"
        unfolding open_checkouts_nonempty_iff db1_def
        by (auto simp: close_def split: if_splits)
      have l: "length (filter (\<lambda>c. co_equipment_id c = E \<and> return_date c = None) (eq_checkouts db)) \<le> 1"
        using g(2) by (simp add: open_checkouts_def)
      have "c = OLD"
      proof (rule filter_at_most_one [OF l c(1) _ OLD(1)])
        show "co_equipment_id c = E \<and> return_date c = None" using c by simp
        show "co_equipment_id OLD = E \<and> return_date OLD = None" using None by (simp add: E_def)
      qed
      with c(4) OLD show False by simp
    qed
    then have "recompute_status db1 E = Available"
      using g(1) pm by (simp add: recompute_status_def)
    then have rcE: "recompute_status db1 E = Available" .
    have fire: "update_equipment_status_on_return OLD (close OLD) db1
        = set_equipment_status E Available db1"
      using None by (simp add: update_equipment_status_on_return_def NEW)
    show ?thesis
      unfolding res fire using inv
    proof (rule status_ok_set)
      show "recompute_status db1 e0 = recompute_status db e0" if "e0 \<noteq> E"
        using that by (rule rc_other)
      show "recompute_status db1 E = Available" by (rule rcE)
      show "eq_equipment db1 = eq_equipment db" by (simp add: eqs)
    qed
  next
    case (Some t)
    have "(open_checkouts db1 E \<noteq> []) = (open_checkouts db E \<noteq> [])"
      unfolding open_checkouts_nonempty_iff db1_def using uniq Some
      by (auto simp: close_def E_def)
    then have "recompute_status db1 eid = recompute_status db eid" for eid
      using rc_other [of eid] pm by (cases "eid = E") (simp_all add: recompute_status_def)
    then have "status_ok db1 e0"
      by (intro status_ok_keep [OF inv]) (simp_all add: eqs)
    then show ?thesis
      unfolding res using Some by (simp add: update_equipment_status_on_return_def)
  qed
qed

lemma db_checked_out_eq:
  "db_checked_out = \<lparr>eq_equipment = [eq1\<lparr>status := CheckedOut\<rparr>],
      eq_checkouts = [\<lparr>co_id = 100, co_equipment_id = 10, co_user_id = 1, checkout_date = 0,
         expected_return = None, return_date = None, use_type = Club, purpose = '''',
         return_condition = None\<rparr>],
      eq_deficiencies = [], users = [u_admin, u_vol]\<rparr>"
  by (simp add: db_checked_out_def db0_def committed_def insert_checkout_def
      policy_checkouts_insert_def update_equipment_status_on_checkout_def
      set_equipment_status_def eq1_def)

lemma db_reported_eq:
  "db_reported = \<lparr>eq_equipment = [eq1\<lparr>status := NeedsRepair\<rparr>],
      eq_checkouts = [\<lparr>co_id = 100, co_equipment_id = 10, co_user_id = 1, checkout_date = 0,
         expected_return = None, return_date = None, use_type = Club, purpose = '''',
         return_condition = None\<rparr>],
      eq_deficiencies = [\<lparr>def_id = 200, def_equipment_id = 10, checkout_id = None,
         reported_by = 1, reported_date = 0, description = ''blade cracked'',
         severity = Major, def_status = Pending, resolved_by = None,
         resolved_date = None, resolution_notes = None\<rparr>],
      users = [u_admin, u_vol]\<rparr>"
  by (simp add: db_reported_def db_checked_out_eq committed_def insert_deficiency_def
      policy_deficiencies_insert_def update_equipment_on_deficiency_def
      set_equipment_status_def eq1_def)


lemma status_invariant_kept:
  assumes "status_invariant db" and "primary_keys db"
  shows "status_invariant (committed db (insert_deficiency auth i today eid cid rep descr sev db))"
    and "status_invariant (update_deficiency_resolve auth defId resolver today db)"
    and "\<not> pending_major db eid \<Longrightarrow>
           status_invariant (committed db (insert_checkout auth i now eid uid ex ut p db))"
    and "plain_return db coid \<Longrightarrow>
           status_invariant (update_checkout_return auth coid now cond db)"
proof -
  have ok: "status_ok db e0" for e0
    using assms(1) by (simp add: status_invariant_iff)
  show "status_invariant (committed db (insert_deficiency auth i today eid cid rep descr sev db))"
    unfolding status_invariant_iff using ok inv_insert_deficiency by blast
  show "status_invariant (update_deficiency_resolve auth defId resolver today db)"
    unfolding status_invariant_iff using ok assms(2) inv_resolve by blast
  show "status_invariant (committed db (insert_checkout auth i now eid uid ex ut p db))"
    if "\<not> pending_major db eid"
    unfolding status_invariant_iff using ok that inv_insert_checkout by blast
  show "status_invariant (update_checkout_return auth coid now cond db)"
    if "plain_return db coid"
  proof -
    from that have "\<forall>c \<in> set (eq_checkouts db). co_id c = coid \<longrightarrow>
            \<not> pending_major db (co_equipment_id c)
            \<and> length (open_checkouts db (co_equipment_id c)) \<le> 1"
      by (simp add: plain_return_def list_all_iff)
    with ok assms(2) show ?thesis
      unfolding status_invariant_iff using inv_return by blast
  qed
qed





text \<open>
  C3 (as amended). \<open>handleCheckout\<close> on equipment whose status in the selected snapshot is
  not \<open>available\<close> returns at its guard: no write, no notification, no error, and the
  component state and the data store are unchanged.
\<close>

theorem handleCheckout_not_available:
  "selectedEquipment cl = Some sel \<Longrightarrow> status sel \<noteq> Available \<Longrightarrow>
     handleCheckout new_id now cl db = (None, cl, db)"
  by (simp add: handleCheckout_def)

theorem handleCheckout_not_available_witness:
  "handleCheckout 100 0 (cl_admin\<lparr>selectedEquipment := Some (eq1\<lparr>status := NeedsRepair\<rparr>)\<rparr>) db0
     = (None, cl_admin\<lparr>selectedEquipment := Some (eq1\<lparr>status := NeedsRepair\<rparr>)\<rparr>, db0)"
  using handleCheckout_not_available
    [of "cl_admin\<lparr>selectedEquipment := Some (eq1\<lparr>status := NeedsRepair\<rparr>)\<rparr>"
        "eq1\<lparr>status := NeedsRepair\<rparr>" 100 0 db0]
  by (simp add: eq1_def)

text \<open>
  C3 as stated fails: a checkout of equipment that is checked out reports no error of any
  kind.
\<close>

theorem handleCheckout_no_error_counterexample:
  "\<not> reports_error (fst (handleCheckout 100 0
        (cl_admin\<lparr>selectedEquipment := Some (eq1\<lparr>status := CheckedOut\<rparr>)\<rparr>) db0))"
  by (simp add: handleCheckout_def reports_error_def)

lemma one_open_checkout_iff:
  "one_open_checkout db \<longleftrightarrow> (\<forall>eid. length (open_checkouts db eid) \<le> 1)"
proof
  assume a: "one_open_checkout db"
  show "\<forall>eid. length (open_checkouts db eid) \<le> 1"
  proof
    fix eid
    show "length (open_checkouts db eid) \<le> 1"
    proof (cases "open_checkouts db eid")
      case Nil then show ?thesis by simp
    next
      case (Cons c cs)
      then have "c \<in> set (open_checkouts db eid)" by simp
      then have "c \<in> set (eq_checkouts db)" "co_equipment_id c = eid"
        by (simp_all add: open_checkouts_def)
      with a show ?thesis by (auto simp: one_open_checkout_def list_all_iff)
    qed
  qed
next
  assume "\<forall>eid. length (open_checkouts db eid) \<le> 1"
  then show "one_open_checkout db" by (simp add: one_open_checkout_def list_all_iff)
qed

lemma checkout_invariant_iff:
  "checkout_invariant db \<longleftrightarrow>
     (\<forall>eid. length (open_checkouts db eid) \<le> 1) \<and>
     (\<forall>e \<in> set (eq_equipment db). status e = Available \<longrightarrow> open_checkouts db (eq_id e) = [])"
  by (simp add: checkout_invariant_def one_open_checkout_iff available_means_free_def list_all_iff)

lemma open_checkouts_set_status [simp]:
  "open_checkouts (set_equipment_status E s db) eid = open_checkouts db eid"
  by (simp add: open_checkouts_def)

lemma checkout_invariant_set:
  assumes "\<forall>eid. length (open_checkouts db eid) \<le> 1"
    and "\<forall>e \<in> set (eq_equipment db). eq_id e \<noteq> E \<longrightarrow> status e = Available \<longrightarrow> open_checkouts db (eq_id e) = []"
    and "s = Available \<longrightarrow> open_checkouts db E = []"
  shows "checkout_invariant (set_equipment_status E s db)"
  using assms unfolding checkout_invariant_iff by auto

lemma ci_insert_checkout:
  assumes inv: "checkout_invariant db"
    and free: "\<exists>e \<in> set (eq_equipment db). eq_id e = E \<and> status e = Available"
  shows "checkout_invariant (committed db (insert_checkout auth i now E uid ex ut p db))"
proof -
  have E: "open_checkouts db E = []"
    using inv free unfolding checkout_invariant_iff by auto
  have len: "length (open_checkouts db eid) \<le> 1" for eid
    using inv unfolding checkout_invariant_iff by auto
  show ?thesis
    using inv E len
    apply (simp add: committed_def insert_checkout_def Let_def update_equipment_status_on_checkout_def)
    apply (intro impI checkout_invariant_set)
    apply (auto simp: open_checkouts_def checkout_invariant_iff)
    done
qed

lemma ci_insert_deficiency:
  assumes inv: "checkout_invariant db"
  shows "checkout_invariant (committed db (insert_deficiency auth i t E cid rep descr sev db))"
proof -
  have keep: "checkout_invariant db1"
    if "eq_checkouts db1 = eq_checkouts db" "eq_equipment db1 = eq_equipment db" for db1
    using inv that unfolding checkout_invariant_iff open_checkouts_def by simp
  have repair: "checkout_invariant (set_equipment_status E NeedsRepair db1)"
    if "eq_checkouts db1 = eq_checkouts db" "eq_equipment db1 = eq_equipment db" for db1
    using keep [OF that] by (intro checkout_invariant_set) (auto simp: checkout_invariant_iff)
  show ?thesis
    using inv
    by (auto simp: committed_def insert_deficiency_def Let_def update_equipment_on_deficiency_def
        intro!: keep repair)
qed

lemma ci_resolve:
  assumes inv: "checkout_invariant db"
  shows "checkout_invariant (update_deficiency_resolve auth defId resolver today db)"
proof (cases "policy_deficiencies_update db auth")
  case False
  then show ?thesis using inv by (simp add: update_deficiency_resolve_def)
next
  case pol: True
  show ?thesis
  proof (cases "find (\<lambda>d. def_id d = defId) (eq_deficiencies db)")
    case None
    then show ?thesis using inv pol by (simp add: update_deficiency_resolve_def)
  next
    case (Some OLD)
    define db1 where "db1 = db\<lparr>eq_deficiencies :=
       map (\<lambda>d. if def_id d = defId then resolve_row resolver today d else d) (eq_deficiencies db)\<rparr>"
    have oc: "open_checkouts db1 eid = open_checkouts db eid" for eid
      by (simp add: open_checkouts_def db1_def)
    have eqs: "eq_equipment db1 = eq_equipment db" "eq_checkouts db1 = eq_checkouts db"
      by (simp_all add: db1_def)
    have i1: "checkout_invariant db1"
      using inv unfolding checkout_invariant_iff oc eqs by simp
    have res: "update_deficiency_resolve auth defId resolver today db =
        update_equipment_on_deficiency UPDATE (Some OLD) (resolve_row resolver today OLD) db1"
      using Some pol by (simp add: update_deficiency_resolve_def db1_def)
    have ex: "list_ex (\<lambda>c. co_equipment_id c = E \<and> return_date c = None) (eq_checkouts db1)
        \<longleftrightarrow> open_checkouts db1 E \<noteq> []" for E
      by (auto simp: open_checkouts_def list_ex_iff filter_empty_conv)
    have a: "checkout_invariant (set_equipment_status E CheckedOut db1)" for E
      using i1 by (intro checkout_invariant_set) (auto simp: checkout_invariant_iff)
    have b: "checkout_invariant (set_equipment_status E Available db1)" if "open_checkouts db1 E = []" for E
      using i1 that by (intro checkout_invariant_set) (auto simp: checkout_invariant_iff)
    show ?thesis
      unfolding res update_equipment_on_deficiency_def ex
      using i1 a b by auto
  qed
qed

lemma filter_map_close:
  assumes "\<And>x. Q x \<Longrightarrow> \<not> P (g x)"
  shows "filter P (map (\<lambda>x. if Q x then g x else x) xs) = filter (\<lambda>x. P x \<and> \<not> Q x) xs"
  using assms by (induction xs) auto

lemma ci_return:
  assumes inv: "checkout_invariant db"
  shows "checkout_invariant (update_checkout_return auth cid now cond db)"
proof (cases "find (\<lambda>c. co_id c = cid \<and> policy_checkouts_update db auth c) (eq_checkouts db)")
  case None
  then show ?thesis using inv by (simp add: update_checkout_return_def)
next
  case (Some OLD)
  define Q where "Q c \<longleftrightarrow> co_id c = cid \<and> policy_checkouts_update db auth c" for c
  define db1 where "db1 = db\<lparr>eq_checkouts :=
      map (\<lambda>c. if Q c then c\<lparr>return_date := Some now, return_condition := Some cond\<rparr> else c)
        (eq_checkouts db)\<rparr>"
  have OLD: "OLD \<in> set (eq_checkouts db)" "Q OLD"
    using Some by (auto simp: find_Some_iff Q_def)
  have res: "update_checkout_return auth cid now cond db =
      update_equipment_status_on_return OLD
        (OLD\<lparr>return_date := Some now, return_condition := Some cond\<rparr>) db1"
    unfolding update_checkout_return_def db1_def Q_def using Some by simp
  have oc: "open_checkouts db1 eid = filter (\<lambda>c. \<not> Q c) (open_checkouts db eid)" for eid
    unfolding open_checkouts_def db1_def
    by (simp add: filter_map_close [where g = "\<lambda>c. c\<lparr>return_date := Some now, return_condition := Some cond\<rparr>"] conj_commute)
  have len: "length (open_checkouts db eid) \<le> 1" for eid
    using inv unfolding checkout_invariant_iff by auto
  have len1: "length (open_checkouts db1 eid) \<le> 1" for eid
    unfolding oc using len [of eid] length_filter_le [of "\<lambda>c. \<not> Q c" "open_checkouts db eid"]
    by linarith
  have free1: "open_checkouts db1 eid = []" if "open_checkouts db eid = []" for eid
    unfolding oc using that by simp
  have eqs: "eq_equipment db1 = eq_equipment db" by (simp add: db1_def)
  have i1: "checkout_invariant db1"
    using inv len1 free1 unfolding checkout_invariant_iff eqs by auto
  show ?thesis
  proof (cases "return_date OLD")
    case None
    define E where "E = co_equipment_id OLD"
    have "OLD \<in> set (open_checkouts db E)"
      using OLD None by (simp add: open_checkouts_def E_def)
    with len [of E] have "open_checkouts db E = [OLD]"
      by (cases "open_checkouts db E") auto
    then have "open_checkouts db1 E = []"
      unfolding oc using OLD by simp
    then have "checkout_invariant (set_equipment_status E Available db1)"
      using i1 by (intro checkout_invariant_set) (auto simp: checkout_invariant_iff)
    then show ?thesis
      unfolding res using None by (simp add: update_equipment_status_on_return_def E_def)
  next
    case (Some t)
    then show ?thesis unfolding res using i1 by (simp add: update_equipment_status_on_return_def)
  qed
qed

text \<open>
  C2 (as amended). The data store has no uniqueness constraint on open checkouts
  (\<^verbatim>\<open>idx_eq_checkouts_active\<close> is a plain partial index), and \<open>handleCheckout\<close> guards on
  the snapshot it holds. From a store with at most one open checkout per equipment and no
  open checkout on available equipment, \<open>handleReturn\<close> and \<open>resolveDeficiency\<close> lead to
  such a store again, and so does \<open>handleCheckout\<close> when its selected snapshot is a
  current row of the equipment table.
\<close>

theorem handlers_keep_one_open_checkout:
  assumes "checkout_invariant db"
  shows "(fresh_selection cl db \<longrightarrow>
            checkout_invariant (snd (snd (handleCheckout new_id now cl db))))
       \<and> checkout_invariant (snd (snd (handleReturn new_id now today cl db)))
       \<and> checkout_invariant (snd (snd (resolveDeficiency defId today cl db)))"
proof (intro conjI impI)
  assume "fresh_selection cl db"
  then have fresh: "\<forall>sel. selectedEquipment cl = Some sel \<longrightarrow> sel \<in> set (eq_equipment db)"
    by (auto simp: fresh_selection_def)
  show "checkout_invariant (snd (snd (handleCheckout new_id now cl db)))"
  proof (cases "selectedEquipment cl")
    case None
    then show ?thesis using assms by (simp add: handleCheckout_def)
  next
    case (Some sel)
    show ?thesis
    proof (cases "status sel = Available")
      case False
      then show ?thesis using assms Some by (simp add: handleCheckout_def)
    next
      case True
      with fresh Some have "\<exists>e \<in> set (eq_equipment db). eq_id e = eq_id sel \<and> status e = Available"
        by auto
      from ci_insert_checkout [OF assms this, where auth = "session cl" and i = new_id
          and now = now and uid = "u_id (user cl)" and ex = "expectedReturn (checkoutForm cl)"
          and ut = "useType (checkoutForm cl)" and p = "cf_purpose (checkoutForm cl)"]
      show ?thesis using Some True assms
        by (auto simp: handleCheckout_def committed_def split: sum.splits)
    qed
  qed
next
  show "checkout_invariant (snd (snd (handleReturn new_id now today cl db)))"
  proof (cases "selectedEquipment cl")
    case None
    then show ?thesis using assms by (simp add: handleReturn_def)
  next
    case (Some sel)
    show ?thesis
    proof (cases "find (\<lambda>c. co_equipment_id c = eq_id sel \<and> return_date c = None) (checkouts cl)")
      case None
      then show ?thesis using assms Some by (simp add: handleReturn_def)
    next
      case (Some active)
      define db1 where "db1 = update_checkout_return (session cl) (co_id active) now
          (if condition (returnForm cl) = Good then Good else Deficiency) db"
      have i1: "checkout_invariant db1"
        unfolding db1_def using assms by (rule ci_return)
      have i2: "checkout_invariant (committed db1 (insert_deficiency (session cl) new_id today
          (eq_id sel) (Some (co_id active)) (u_id (user cl)) (deficiencyDesc (returnForm cl))
          (rf_severity (returnForm cl)) db1))"
        using i1 by (rule ci_insert_deficiency)
      show ?thesis
        using i1 i2 Some \<open>selectedEquipment cl = Some sel\<close>
        by (auto simp: handleReturn_def Let_def committed_def db1_def split: sum.splits)
    qed
  qed
next
  show "checkout_invariant (snd (snd (resolveDeficiency defId today cl db)))"
    using ci_resolve [OF assms] by (simp add: resolveDeficiency_def)
qed

lemma find_map_same_key:
  assumes "\<And>x. k (g x) = k x"
  shows "find (\<lambda>x. k x = a) (map (\<lambda>x. if k x = a then g x else x) xs)
           = map_option g (find (\<lambda>x. k x = a) xs)"
  using assms by (induction xs) auto

lemma update_equipment_on_deficiency_tables [simp]:
  "eq_checkouts (update_equipment_on_deficiency op OLD NEW db) = eq_checkouts db"
  "eq_deficiencies (update_equipment_on_deficiency op OLD NEW db) = eq_deficiencies db"
  "users (update_equipment_on_deficiency op OLD NEW db) = users db"
  by (simp_all add: update_equipment_on_deficiency_def)

lemma map_eq_id_set_status [simp]:
  "map eq_id (eq_equipment (set_equipment_status E s db)) = map eq_id (eq_equipment db)"
  by (induction "eq_equipment db" arbitrary: db) (simp_all add: set_equipment_status_def)

lemma insert_deficiency_major_Inr:
  assumes "insert_deficiency auth i t E cid rep descr Major db = Inr db'"
  shows "db' = set_equipment_status E NeedsRepair
      (db\<lparr>eq_deficiencies := eq_deficiencies db @
        [\<lparr>def_id = i, def_equipment_id = E, checkout_id = cid,
                 reported_by = rep, reported_date = t, description = descr,
                 severity = Major, def_status = Pending, resolved_by = None,
                 resolved_date = None, resolution_notes = None\<rparr>]\<rparr>)"
proof -
  let ?NEW = "\<lparr>def_id = i, def_equipment_id = E, checkout_id = cid,
                 reported_by = rep, reported_date = t, description = descr,
                 severity = Major, def_status = Pending, resolved_by = None,
                 resolved_date = None, resolution_notes = None\<rparr>"
  have "insert_deficiency auth i t E cid rep descr Major db =
      (if \<not> policy_deficiencies_insert auth ?NEW then Inl RLSViolation
       else if i \<in> set (map def_id (eq_deficiencies db)) then Inl UniqueViolation
       else Inr (set_equipment_status E NeedsRepair (db\<lparr>eq_deficiencies := eq_deficiencies db @ [?NEW]\<rparr>)))"
    by (simp add: insert_deficiency_def update_equipment_on_deficiency_def)
  with assms show ?thesis
    by (simp split: if_splits)
qed

lemma status_after_set:
  assumes "e \<in> set (eq_equipment (set_equipment_status E s db))" and "eq_id e = E"
  shows "status e = s"
proof -
  from assms(1)
  have "e \<in> (\<lambda>x. if eq_id x = E then x\<lparr>status := s\<rparr> else x) ` set (eq_equipment db)"
    by (simp only: set_equipment_status_tables set_map)
  then obtain x where x: "e = (if eq_id x = E then x\<lparr>status := s\<rparr> else x)"
    by blast
  show ?thesis
  proof (cases "eq_id x = E")
    case True
    with x show ?thesis by simp
  next
    case False
    with x assms(2) show ?thesis by simp
  qed
qed

text \<open>
  C5. Inserting a major deficiency sets every equipment row with that identifier to
  \<open>needs-repair\<close>, whatever its checkouts, and leaves the checkout table as it was.
  Resolving a pending deficiency, when no pending major deficiency with another identifier
  is left on the equipment, sets the status to \<open>checked-out\<close> if the equipment has an open
  checkout and to \<open>available\<close> otherwise.
\<close>

theorem major_deficiency_report_and_resolution:
  "(insert_deficiency auth i t E cid rep descr Major db = Inr db' \<longrightarrow>
      map eq_id (eq_equipment db') = map eq_id (eq_equipment db)
      \<and> (\<forall>e \<in> set (eq_equipment db'). eq_id e = E \<longrightarrow> status e = NeedsRepair)
      \<and> eq_checkouts db' = eq_checkouts db)
   \<and> (policy_deficiencies_update db auth
        \<and> find (\<lambda>d. def_id d = defId) (eq_deficiencies db) = Some d
        \<and> def_status d = Pending
        \<and> \<not> list_ex (\<lambda>d'. def_equipment_id d' = def_equipment_id d \<and> def_id d' \<noteq> defId
                            \<and> severity d' = Major \<and> def_status d' = Pending) (eq_deficiencies db)
      \<longrightarrow>
      map eq_id (eq_equipment (update_deficiency_resolve auth defId resolver today db))
        = map eq_id (eq_equipment db)
      \<and> (\<forall>e \<in> set (eq_equipment (update_deficiency_resolve auth defId resolver today db)).
            eq_id e = def_equipment_id d \<longrightarrow>
            status e = (if open_checkouts db (def_equipment_id d) \<noteq> [] then CheckedOut
                        else Available))
      \<and> eq_checkouts (update_deficiency_resolve auth defId resolver today db) = eq_checkouts db)"
proof (intro conjI impI)
  assume a: "insert_deficiency auth i t E cid rep descr Major db = Inr db'"
  then have db': "db' = set_equipment_status E NeedsRepair
      (db\<lparr>eq_deficiencies := eq_deficiencies db @
        [\<lparr>def_id = i, def_equipment_id = E, checkout_id = cid,
                 reported_by = rep, reported_date = t, description = descr,
                 severity = Major, def_status = Pending, resolved_by = None,
                 resolved_date = None, resolution_notes = None\<rparr>]\<rparr>)"
    by (rule insert_deficiency_major_Inr)
  show "map eq_id (eq_equipment db') = map eq_id (eq_equipment db)"
    unfolding db' by simp
  show "\<forall>e \<in> set (eq_equipment db'). eq_id e = E \<longrightarrow> status e = NeedsRepair"
    unfolding db' using status_after_set by blast
  show "eq_checkouts db' = eq_checkouts db"
    unfolding db' by simp
next
  assume h: "policy_deficiencies_update db auth
        \<and> find (\<lambda>d. def_id d = defId) (eq_deficiencies db) = Some d
        \<and> def_status d = Pending
        \<and> \<not> list_ex (\<lambda>d'. def_equipment_id d' = def_equipment_id d \<and> def_id d' \<noteq> defId
                            \<and> severity d' = Major \<and> def_status d' = Pending) (eq_deficiencies db)"
  define E where "E = def_equipment_id d"
  define db1 where "db1 = db\<lparr>eq_deficiencies :=
       map (\<lambda>d. if def_id d = defId then resolve_row resolver today d else d) (eq_deficiencies db)\<rparr>"
  have d: "def_id d = defId" using h by (auto simp: find_Some_iff)
  have res: "update_deficiency_resolve auth defId resolver today db =
        update_equipment_on_deficiency UPDATE (Some d) (resolve_row resolver today d) db1"
    using h by (simp add: update_deficiency_resolve_def db1_def)
  have NEW: "def_equipment_id (resolve_row resolver today d) = E" "def_id (resolve_row resolver today d) = defId"
       "def_status (resolve_row resolver today d) = Resolved"
    using d by (simp_all add: resolve_row_def E_def)
  have no_other: "\<not> list_ex (\<lambda>d'. def_equipment_id d' = E \<and> def_id d' \<noteq> defId
                            \<and> severity d' = Major \<and> def_status d' = Pending) (eq_deficiencies db1)"
    using h unfolding list_ex_iff db1_def E_def by (auto simp: resolve_row_def)
  have ex: "list_ex (\<lambda>c. co_equipment_id c = E \<and> return_date c = None) (eq_checkouts db1)
        \<longleftrightarrow> open_checkouts db E \<noteq> []"
    by (auto simp: open_checkouts_def list_ex_iff filter_empty_conv db1_def)
  have fire: "update_equipment_on_deficiency UPDATE (Some d) (resolve_row resolver today d) db1
      = set_equipment_status E (if open_checkouts db E \<noteq> [] then CheckedOut else Available) db1"
    using h no_other by (simp add: update_equipment_on_deficiency_def NEW ex)
  show "map eq_id (eq_equipment (update_deficiency_resolve auth defId resolver today db))
        = map eq_id (eq_equipment db)"
    unfolding res fire by (simp add: db1_def)
  show "\<forall>e \<in> set (eq_equipment (update_deficiency_resolve auth defId resolver today db)).
            eq_id e = def_equipment_id d \<longrightarrow>
            status e = (if open_checkouts db (def_equipment_id d) \<noteq> [] then CheckedOut
                        else Available)"
    unfolding res fire E_def [symmetric] using status_after_set by blast
  show "eq_checkouts (update_deficiency_resolve auth defId resolver today db) = eq_checkouts db"
    unfolding res by (simp add: db1_def)
qed

lemma db_good_return_eq:
  "db_good_return = \<lparr>eq_equipment = [eq1],
      eq_checkouts = [\<lparr>co_id = 100, co_equipment_id = 10, co_user_id = 1, checkout_date = 0,
         expected_return = None, return_date = Some 5, use_type = Club, purpose = '''',
         return_condition = Some Good\<rparr>],
      eq_deficiencies = [], users = [u_admin, u_vol]\<rparr>"
  by (simp add: db_good_return_def db_checked_out_eq update_checkout_return_def
      policy_checkouts_update_def update_equipment_status_on_return_def
      set_equipment_status_def eq1_def)

lemma db_resolved_eq:
  "db_resolved = \<lparr>eq_equipment = [eq1\<lparr>status := CheckedOut\<rparr>],
      eq_checkouts = [\<lparr>co_id = 100, co_equipment_id = 10, co_user_id = 1, checkout_date = 0,
         expected_return = None, return_date = None, use_type = Club, purpose = '''',
         return_condition = None\<rparr>],
      eq_deficiencies = [d200\<lparr>def_status := Resolved, resolved_by := Some 1,
         resolved_date := Some 3, resolution_notes := Some ''Resolved''\<rparr>],
      users = [u_admin, u_vol]\<rparr>"
  by (simp add: db_resolved_def db_reported_eq update_deficiency_resolve_def
      policy_deficiencies_update_def auth_is_admin_or_chair_def u_admin_def u_vol_def
      update_equipment_on_deficiency_def resolve_row_def d200_def
      set_equipment_status_def eq1_def)

theorem major_deficiency_report_and_resolution_witness:
  "insert_deficiency (Some 1) 200 0 10 None 1 ''blade cracked'' Major db_checked_out = Inr db_reported
   \<and> map eq_id (eq_equipment db_reported) = [10]
   \<and> map status (eq_equipment db_reported) = [NeedsRepair]
   \<and> eq_checkouts db_reported = eq_checkouts db_checked_out
   \<and> policy_deficiencies_update db_reported (Some 1)
   \<and> find (\<lambda>d. def_id d = 200) (eq_deficiencies db_reported) = Some d200
   \<and> def_status d200 = Pending
   \<and> \<not> list_ex (\<lambda>d'. def_equipment_id d' = def_equipment_id d200 \<and> def_id d' \<noteq> 200
                            \<and> severity d' = Major \<and> def_status d' = Pending) (eq_deficiencies db_reported)
   \<and> open_checkouts db_reported 10 \<noteq> []
   \<and> map status (eq_equipment db_resolved) = [CheckedOut]
   \<and> eq_checkouts db_resolved = eq_checkouts db_reported"
proof -
  have a: "insert_deficiency (Some 1) 200 0 10 None 1 ''blade cracked'' Major db_checked_out = Inr db_reported"
    by (simp add: db_reported_eq db_checked_out_eq insert_deficiency_def
      policy_deficiencies_insert_def update_equipment_on_deficiency_def
      set_equipment_status_def eq1_def)
  have b: "policy_deficiencies_update db_reported (Some 1)
   \<and> find (\<lambda>d. def_id d = 200) (eq_deficiencies db_reported) = Some d200
   \<and> def_status d200 = Pending
   \<and> \<not> list_ex (\<lambda>d'. def_equipment_id d' = def_equipment_id d200 \<and> def_id d' \<noteq> 200
                            \<and> severity d' = Major \<and> def_status d' = Pending) (eq_deficiencies db_reported)"
    by (simp add: db_reported_eq policy_deficiencies_update_def auth_is_admin_or_chair_def
        u_admin_def d200_def)
  have c: "eq_equipment db_reported = [eq1\<lparr>status := NeedsRepair\<rparr>]"
      "eq_equipment db_resolved = [eq1\<lparr>status := CheckedOut\<rparr>]"
      "open_checkouts db_reported 10 \<noteq> []" "def_equipment_id d200 = 10"
    by (simp_all add: db_reported_eq db_resolved_eq open_checkouts_def d200_def)
  have p1: "eq_checkouts db_reported = eq_checkouts db_checked_out"
    using a
      major_deficiency_report_and_resolution [where auth = "Some 1" and i = 200 and t = 0
        and E = 10 and cid = None and rep = 1 and descr = "''blade cracked''"
        and db = db_checked_out and db' = db_reported]
    by blast
  have p2: "eq_checkouts db_resolved = eq_checkouts db_reported"
    unfolding db_resolved_def
    using b
      major_deficiency_report_and_resolution [where auth = "Some 1" and db = db_reported
        and defId = 200 and d = d200 and resolver = 1 and today = 3]
    by blast
  have e: "map eq_id (eq_equipment db_reported) = [10]"
      "map status (eq_equipment db_reported) = [NeedsRepair]"
      "map status (eq_equipment db_resolved) = [CheckedOut]"
    by (simp_all add: c eq1_def)
  from a b c(3) e p1 p2 show ?thesis by blast
qed

theorem handlers_keep_one_open_checkout_witness:
  "checkout_invariant db0 \<and> fresh_selection cl_admin db0
   \<and> snd (snd (handleCheckout 100 0 cl_admin db0)) = db_checked_out
   \<and> checkout_invariant db_checked_out
   \<and> checkout_invariant (snd (snd (handleReturn 100 0 0 cl_admin db0)))
   \<and> checkout_invariant (snd (snd (resolveDeficiency 200 0 cl_admin db0)))"
proof -
  have h: "checkout_invariant db0"
    by (simp add: checkout_invariant_def one_open_checkout_def available_means_free_def
        open_checkouts_def db0_def)
  have f: "fresh_selection cl_admin db0"
    by (simp add: fresh_selection_def cl_admin_def db0_def)
  have c: "snd (snd (handleCheckout 100 0 cl_admin db0)) = db_checked_out"
    by (simp add: handleCheckout_def cl_admin_def eq1_def u_admin_def initialCheckoutForm_def
        db_checked_out_def committed_def insert_checkout_def Let_def policy_checkouts_insert_def db0_def)
  from h f c handlers_keep_one_open_checkout [OF h, where cl = cl_admin and new_id = 100
      and now = 0 and today = 0 and defId = 200]
  show ?thesis by simp
qed

text \<open>
  C2 as stated fails: a second \<open>handleCheckout\<close> from the snapshot taken before the first
  one is accepted by the data store and leaves two open checkouts on the mower.
\<close>

theorem stale_checkout_counterexample:
  "one_open_checkout db0
   \<and> snd (snd (handleCheckout 100 0 cl_admin db0)) = db_checked_out
   \<and> map return_date (open_checkouts (snd (snd (handleCheckout 101 1 cl_admin db_checked_out))) 10)
       = [None, None]
   \<and> \<not> one_open_checkout (snd (snd (handleCheckout 101 1 cl_admin db_checked_out)))"
  by (simp add: handleCheckout_def cl_admin_def eq1_def u_admin_def initialCheckoutForm_def
        db_checked_out_def committed_def insert_checkout_def Let_def policy_checkouts_insert_def db0_def
        one_open_checkout_def open_checkouts_def update_equipment_status_on_checkout_def
        set_equipment_status_def)

text \<open>
  C4 (as amended). When the cached checkouts hold no open checkout for the selected
  equipment, \<open>handleReturn\<close> returns at its guard: no error, no notification, no write.
  In the data store, a return update on checkouts that are already returned does not
  fire the return trigger: the equipment table is unchanged.
\<close>

theorem handleReturn_already_returned:
  "(selectedEquipment cl = Some sel
      \<and> \<not> list_ex (\<lambda>c. co_equipment_id c = eq_id sel \<and> return_date c = None) (checkouts cl)
      \<longrightarrow> handleReturn new_id now today cl db = (None, cl, db))
   \<and> (\<not> list_ex (\<lambda>c. co_id c = coid \<and> return_date c = None) (eq_checkouts db)
      \<longrightarrow> eq_equipment (update_checkout_return auth coid now cond db) = eq_equipment db)"
proof (intro conjI impI)
  assume a: "selectedEquipment cl = Some sel
      \<and> \<not> list_ex (\<lambda>c. co_equipment_id c = eq_id sel \<and> return_date c = None) (checkouts cl)"
  then have "find (\<lambda>c. co_equipment_id c = eq_id sel \<and> return_date c = None) (checkouts cl) = None"
    by (auto simp: find_None_iff list_ex_iff)
  with a show "handleReturn new_id now today cl db = (None, cl, db)"
    by (simp add: handleReturn_def)
next
  assume a: "\<not> list_ex (\<lambda>c. co_id c = coid \<and> return_date c = None) (eq_checkouts db)"
  show "eq_equipment (update_checkout_return auth coid now cond db) = eq_equipment db"
  proof (cases "find (\<lambda>c. co_id c = coid \<and> policy_checkouts_update db auth c) (eq_checkouts db)")
    case None
    then show ?thesis by (simp add: update_checkout_return_def)
  next
    case (Some OLD)
    then have "OLD \<in> set (eq_checkouts db)" "co_id OLD = coid"
      by (auto simp: find_Some_iff)
    with a obtain t where "return_date OLD = Some t"
      by (auto simp: list_ex_iff)
    with Some show ?thesis
      by (simp add: update_checkout_return_def update_equipment_status_on_return_def)
  qed
qed

theorem handleReturn_already_returned_witness:
  "selectedEquipment (cl_return\<lparr>checkouts := eq_checkouts db_good_return\<rparr>)
      = Some (eq1\<lparr>status := CheckedOut\<rparr>)
   \<and> \<not> list_ex (\<lambda>c. co_equipment_id c = eq_id (eq1\<lparr>status := CheckedOut\<rparr>) \<and> return_date c = None)
          (checkouts (cl_return\<lparr>checkouts := eq_checkouts db_good_return\<rparr>))
   \<and> handleReturn 300 9 0 (cl_return\<lparr>checkouts := eq_checkouts db_good_return\<rparr>) db_good_return
       = (None, cl_return\<lparr>checkouts := eq_checkouts db_good_return\<rparr>, db_good_return)
   \<and> \<not> list_ex (\<lambda>c. co_id c = 100 \<and> return_date c = None) (eq_checkouts db_good_return)
   \<and> eq_equipment (update_checkout_return (Some 1) 100 9 Good db_good_return)
       = eq_equipment db_good_return"
proof -
  have a: "selectedEquipment (cl_return\<lparr>checkouts := eq_checkouts db_good_return\<rparr>)
      = Some (eq1\<lparr>status := CheckedOut\<rparr>)
   \<and> \<not> list_ex (\<lambda>c. co_equipment_id c = eq_id (eq1\<lparr>status := CheckedOut\<rparr>) \<and> return_date c = None)
          (checkouts (cl_return\<lparr>checkouts := eq_checkouts db_good_return\<rparr>))"
    by (simp add: cl_return_def cl_admin_def db_good_return_eq eq1_def)
  have b: "\<not> list_ex (\<lambda>c. co_id c = 100 \<and> return_date c = None) (eq_checkouts db_good_return)"
    by (simp add: db_good_return_eq)
  from a b handleReturn_already_returned [where cl = "cl_return\<lparr>checkouts := eq_checkouts db_good_return\<rparr>"
      and sel = "eq1\<lparr>status := CheckedOut\<rparr>" and new_id = 300 and now = 9 and today = 0
      and db = db_good_return and coid = 100 and auth = "Some 1" and cond = Good]
  show ?thesis by blast
qed

text \<open>
  C4 as stated fails. After the mower's return, a second \<open>handleReturn\<close> with refreshed
  checkouts reports no error; with the checkouts cached before the first return it
  overwrites the return timestamp and condition of the returned checkout.
\<close>

theorem second_return_counterexample:
  "snd (snd (handleReturn 300 5 0 cl_return db_checked_out)) = db_good_return
   \<and> \<not> reports_error (fst (handleReturn 301 9 0
          (cl_return\<lparr>checkouts := eq_checkouts db_good_return\<rparr>) db_good_return))
   \<and> map return_date (eq_checkouts db_good_return) = [Some 5]
   \<and> map return_date (eq_checkouts (snd (snd (handleReturn 301 9 0 cl_return db_good_return))))
        = [Some 9]
   \<and> \<not> reports_error (fst (handleReturn 301 9 0 cl_return db_good_return))"
  by (simp add: handleReturn_def cl_return_def cl_admin_def db_good_return_eq db_checked_out_eq
      eq1_def u_admin_def initialReturnForm_def reports_error_def update_checkout_return_def
      policy_checkouts_update_def update_equipment_status_on_return_def set_equipment_status_def)

text \<open>
  C6 (as amended). \<open>resolveDeficiency\<close> checks no status and has no error to raise. Run
  from a chair or admin session on an existing deficiency, pending or resolved, it reports
  success, sets the status to \<open>resolved\<close> and records the resolver and the date; on an
  already resolved deficiency the trigger does not fire and the equipment table is unchanged.
\<close>

theorem resolveDeficiency_resolves:
  "auth_is_admin_or_chair db (session cl)
     \<and> find (\<lambda>d. def_id d = defId) (eq_deficiencies db) = Some d \<longrightarrow>
   fst (resolveDeficiency defId today cl db) = Some (''Deficiency marked as resolved'', Success)
   \<and> find (\<lambda>d. def_id d = defId) (eq_deficiencies (snd (snd (resolveDeficiency defId today cl db))))
       = Some (d\<lparr>def_status := Resolved, resolved_by := Some (u_id (user cl)),
                 resolved_date := Some today, resolution_notes := Some ''Resolved''\<rparr>)
   \<and> (def_status d = Resolved \<longrightarrow>
        eq_equipment (snd (snd (resolveDeficiency defId today cl db))) = eq_equipment db)"
proof (intro impI)
  assume h: "auth_is_admin_or_chair db (session cl)
     \<and> find (\<lambda>d. def_id d = defId) (eq_deficiencies db) = Some d"
  define r where "r = u_id (user cl)"
  define db1 where "db1 = db\<lparr>eq_deficiencies :=
       map (\<lambda>d. if def_id d = defId then resolve_row r today d else d) (eq_deficiencies db)\<rparr>"
  have res: "snd (snd (resolveDeficiency defId today cl db)) =
        update_equipment_on_deficiency UPDATE (Some d) (resolve_row r today d) db1"
    unfolding db1_def r_def using h
    by (simp add: resolveDeficiency_def update_deficiency_resolve_def
        policy_deficiencies_update_def)
  have f: "find (\<lambda>d. def_id d = defId) (eq_deficiencies db1) = Some (resolve_row r today d)"
    using h find_map_same_key [of def_id "resolve_row r today" defId "eq_deficiencies db"]
    by (simp add: db1_def resolve_row_def)
  have e: "def_status d = Resolved \<Longrightarrow>
      update_equipment_on_deficiency UPDATE (Some d) (resolve_row r today d) db1 = db1"
    by (simp add: update_equipment_on_deficiency_def)
  show "fst (resolveDeficiency defId today cl db) = Some (''Deficiency marked as resolved'', Success)
   \<and> find (\<lambda>d. def_id d = defId) (eq_deficiencies (snd (snd (resolveDeficiency defId today cl db))))
       = Some (d\<lparr>def_status := Resolved, resolved_by := Some (u_id (user cl)),
                 resolved_date := Some today, resolution_notes := Some ''Resolved''\<rparr>)
   \<and> (def_status d = Resolved \<longrightarrow>
        eq_equipment (snd (snd (resolveDeficiency defId today cl db))) = eq_equipment db)"
    unfolding res using f e
    by (simp add: resolveDeficiency_def resolve_row_def r_def db1_def)
qed

theorem resolveDeficiency_resolves_witness:
  "auth_is_admin_or_chair db_reported (session cl_admin)
   \<and> find (\<lambda>d. def_id d = 200) (eq_deficiencies db_reported) = Some d200
   \<and> fst (resolveDeficiency 200 3 cl_admin db_reported)
       = Some (''Deficiency marked as resolved'', Success)
   \<and> find (\<lambda>d. def_id d = 200) (eq_deficiencies (snd (snd (resolveDeficiency 200 3 cl_admin db_reported))))
       = Some (d200\<lparr>def_status := Resolved, resolved_by := Some 1,
                 resolved_date := Some 3, resolution_notes := Some ''Resolved''\<rparr>)"
proof -
  have h: "auth_is_admin_or_chair db_reported (session cl_admin)
     \<and> find (\<lambda>d. def_id d = 200) (eq_deficiencies db_reported) = Some d200"
    by (simp add: db_reported_eq auth_is_admin_or_chair_def cl_admin_def u_admin_def d200_def)
  have u: "u_id (user cl_admin) = 1"
    by (simp add: cl_admin_def u_admin_def)
  from h resolveDeficiency_resolves [where db = db_reported and cl = cl_admin and defId = 200
      and d = d200 and today = 3]
  show ?thesis unfolding u by blast
qed

text \<open>
  C6 as stated fails: resolving the deficiency a second time reports success, not an
  error, and replaces the recorded resolution date.
\<close>

theorem resolve_twice_counterexample:
  "map def_status (eq_deficiencies db_resolved) = [Resolved]
   \<and> map resolved_date (eq_deficiencies db_resolved) = [Some 3]
   \<and> fst (resolveDeficiency 200 4 cl_admin db_resolved)
        = Some (''Deficiency marked as resolved'', Success)
   \<and> \<not> reports_error (fst (resolveDeficiency 200 4 cl_admin db_resolved))
   \<and> map resolved_date (eq_deficiencies (snd (snd (resolveDeficiency 200 4 cl_admin db_resolved))))
        = [Some 4]"
  by (simp add: resolveDeficiency_def reports_error_def db_resolved_eq cl_admin_def u_admin_def
      update_deficiency_resolve_def policy_deficiencies_update_def auth_is_admin_or_chair_def
      update_equipment_on_deficiency_def resolve_row_def d200_def)

text \<open>
  C7 (as amended). The handlers check no capability and there is no authorization error;
  the row-level policies of the data store decide. A resolution from a session that is not
  a chair's or an admin's updates no row: the store is unchanged and the handler still
  reports success. A checkout from a session that is not the user's is rejected by the
  insert policy: nothing changes and the handler shows its generic error, or nothing when
  it returned at its guard. A return from a request without a session changes nothing in
  the store.
\<close>

theorem unauthorized_requests_write_nothing:
  "(\<not> auth_is_admin_or_chair db (session cl) \<longrightarrow>
      resolveDeficiency defId today cl db
        = (Some (''Deficiency marked as resolved'', Success), cl, db))
   \<and> (session cl \<noteq> Some (u_id (user cl)) \<longrightarrow>
        handleCheckout new_id now cl db = (None, cl, db)
        \<or> handleCheckout new_id now cl db = (Some (''Error checking out equipment'', Error), cl, db))
   \<and> (session cl = None \<longrightarrow> snd (snd (handleReturn new_id now today cl db)) = db)"
proof (intro conjI impI)
  assume "\<not> auth_is_admin_or_chair db (session cl)"
  then show "resolveDeficiency defId today cl db
        = (Some (''Deficiency marked as resolved'', Success), cl, db)"
    by (simp add: resolveDeficiency_def update_deficiency_resolve_def policy_deficiencies_update_def)
next
  assume "session cl \<noteq> Some (u_id (user cl))"
  then show "handleCheckout new_id now cl db = (None, cl, db)
        \<or> handleCheckout new_id now cl db = (Some (''Error checking out equipment'', Error), cl, db)"
    by (simp add: handleCheckout_def insert_checkout_def Let_def policy_checkouts_insert_def
        split: option.splits)
next
  assume a: "session cl = None"
  have p: "\<not> policy_checkouts_update db None c" for c
    by (simp add: policy_checkouts_update_def auth_is_admin_or_chair_def list_ex_iff)
  have u: "update_checkout_return None coid now cond db = db" for coid cond
  proof -
    have "find (\<lambda>c. co_id c = coid \<and> policy_checkouts_update db None c) (eq_checkouts db) = None"
      by (simp add: find_None_iff p)
    then show ?thesis by (simp add: update_checkout_return_def)
  qed
  have i: "insert_deficiency None i t E cid rep descr sev db = Inl RLSViolation" for i t E cid rep descr sev
    by (simp add: insert_deficiency_def policy_deficiencies_insert_def)
  show "snd (snd (handleReturn new_id now today cl db)) = db"
    by (simp add: handleReturn_def a u i Let_def split: option.splits)
qed

theorem unauthorized_requests_write_nothing_witness:
  "\<not> auth_is_admin_or_chair db_reported (session cl_vol)
   \<and> resolveDeficiency 200 3 cl_vol db_reported
        = (Some (''Deficiency marked as resolved'', Success), cl_vol, db_reported)
   \<and> session (cl_vol\<lparr>session := None\<rparr>) \<noteq> Some (u_id (user (cl_vol\<lparr>session := None\<rparr>)))
   \<and> handleCheckout 101 1 (cl_vol\<lparr>session := None\<rparr>) db0
        = (Some (''Error checking out equipment'', Error), cl_vol\<lparr>session := None\<rparr>, db0)
   \<and> session (cl_return\<lparr>session := None\<rparr>) = None
   \<and> snd (snd (handleReturn 300 5 0 (cl_return\<lparr>session := None\<rparr>) db_checked_out))
        = db_checked_out"
proof -
  have a: "\<not> auth_is_admin_or_chair db_reported (session cl_vol)"
    by (simp add: db_reported_eq auth_is_admin_or_chair_def cl_vol_def u_admin_def u_vol_def)
  have b: "session (cl_vol\<lparr>session := None\<rparr>) \<noteq> Some (u_id (user (cl_vol\<lparr>session := None\<rparr>)))"
      "session (cl_return\<lparr>session := None\<rparr>) = None"
    by simp_all
  have c: "handleCheckout 101 1 (cl_vol\<lparr>session := None\<rparr>) db0 \<noteq> (None, cl_vol\<lparr>session := None\<rparr>, db0)"
    by (simp add: handleCheckout_def cl_vol_def eq1_def insert_checkout_def Let_def
        policy_checkouts_insert_def)
  from a b c
    unauthorized_requests_write_nothing [where db = db_reported and cl = cl_vol and defId = 200
      and today = 3]
    unauthorized_requests_write_nothing [where db = db0 and cl = "cl_vol\<lparr>session := None\<rparr>"
      and new_id = 101 and now = 1]
    unauthorized_requests_write_nothing [where db = db_checked_out
      and cl = "cl_return\<lparr>session := None\<rparr>" and new_id = 300 and now = 5 and today = 0]
  show ?thesis by blast
qed

text \<open>
  C7 as stated fails: a volunteer's resolution request is not rejected with an error, the
  handler reports success.
\<close>

theorem volunteer_resolution_counterexample:
  "role (user cl_vol) = Volunteer
   \<and> fst (resolveDeficiency 200 3 cl_vol db_reported)
        = Some (''Deficiency marked as resolved'', Success)
   \<and> \<not> reports_error (fst (resolveDeficiency 200 3 cl_vol db_reported))"
  by (simp add: resolveDeficiency_def reports_error_def cl_vol_def u_vol_def)

text \<open>The primary keys stay unique under the four writes.\<close>

lemma map_key_update:
  "(\<And>x. k (g x) = k x) \<Longrightarrow> map k (map (\<lambda>x. if P x then g x else x) xs) = map k xs"
  by (induction xs) simp_all

lemma primary_keys_tables:
  "map eq_id (eq_equipment db') = map eq_id (eq_equipment db) \<Longrightarrow>
   map co_id (eq_checkouts db') = map co_id (eq_checkouts db) \<Longrightarrow>
   map def_id (eq_deficiencies db') = map def_id (eq_deficiencies db) \<Longrightarrow>
   primary_keys db' = primary_keys db"
  by (simp add: primary_keys_def)

lemma primary_keys_set_status [simp]:
  "primary_keys (set_equipment_status E s db) = primary_keys db"
  by (rule primary_keys_tables) simp_all

lemma primary_keys_preserved:
  assumes "primary_keys db"
  shows "primary_keys (committed db (insert_checkout auth i now eid uid ex ut p db))"
    and "primary_keys (update_checkout_return auth coid now cond db)"
    and "primary_keys (committed db (insert_deficiency auth i today eid cid rep descr sev db))"
    and "primary_keys (update_deficiency_resolve auth defId resolver today db)"
proof -
  show "primary_keys (committed db (insert_checkout auth i now eid uid ex ut p db))"
    using assms
    by (simp add: committed_def insert_checkout_def Let_def update_equipment_status_on_checkout_def)
       (simp add: primary_keys_def)
  show "primary_keys (committed db (insert_deficiency auth i today eid cid rep descr sev db))"
    using assms
    by (simp add: committed_def insert_deficiency_def Let_def update_equipment_on_deficiency_def)
       (simp add: primary_keys_def)
  define cs where "cs = map (\<lambda>c. if co_id c = coid \<and> policy_checkouts_update db auth c
                           then c\<lparr>return_date := Some now, return_condition := Some cond\<rparr>
                           else c) (eq_checkouts db)"
  have c: "map co_id cs = map co_id (eq_checkouts db)"
    unfolding cs_def by (rule map_key_update) simp
  have "primary_keys (db\<lparr>eq_checkouts := cs\<rparr>)"
    using assms by (simp add: primary_keys_def c)
  then show "primary_keys (update_checkout_return auth coid now cond db)"
    using assms unfolding cs_def
    by (simp add: update_checkout_return_def update_equipment_status_on_return_def
        split: option.splits)
  define ds where "ds = map (\<lambda>d. if def_id d = defId then resolve_row resolver today d else d)
                    (eq_deficiencies db)"
  have d: "map def_id ds = map def_id (eq_deficiencies db)"
    unfolding ds_def by (rule map_key_update) (simp add: resolve_row_def)
  have "primary_keys (db\<lparr>eq_deficiencies := ds\<rparr>)"
    using assms by (simp add: primary_keys_def d)
  then show "primary_keys (update_deficiency_resolve auth defId resolver today db)"
    using assms unfolding ds_def
    by (simp add: update_deficiency_resolve_def update_equipment_on_deficiency_def
        split: option.splits)
qed

section \<open>Query layer properties\<close>

lemma mset_js_insert: "mset (js_insert cmp x ys) = add_mset x (mset ys)"
  by (induction ys) simp_all

lemma mset_js_sort: "mset (js_sort cmp xs) = mset xs"
  by (induction xs) (simp_all add: js_sort_def mset_js_insert)

lemma set_js_insert: "set (js_insert cmp x ys) = insert x (set ys)"
  by (induction ys) auto

lemma js_sort_Cons: "js_sort cmp (x # xs) = js_insert cmp x (js_sort cmp xs)"
  by (simp add: js_sort_def)

lemma js_sort_Nil: "js_sort cmp [] = []"
  by (simp add: js_sort_def)

lemma sorted_js_insert:
  assumes trans: "\<And>a b c. cmp a b \<le> 0 \<Longrightarrow> cmp b c \<le> 0 \<Longrightarrow> cmp a c \<le> 0"
    and total: "\<And>a b. cmp a b \<le> 0 \<or> cmp b a \<le> 0"
  shows "sorted_wrt (\<lambda>a b. cmp a b \<le> 0) ys \<Longrightarrow> sorted_wrt (\<lambda>a b. cmp a b \<le> 0) (js_insert cmp x ys)"
proof (induction ys)
  case Nil
  then show ?case by simp
next
  case (Cons y ys)
  show ?case
  proof (cases "cmp x y \<le> 0")
    case True
    then have "\<forall>z \<in> set ys. cmp x z \<le> 0"
      using Cons.prems trans by auto
    with True Cons.prems show ?thesis by simp
  next
    case False
    then have "cmp y x \<le> 0" using total [of x y] by simp
    with False Cons show ?thesis by (auto simp: set_js_insert)
  qed
qed

lemma sorted_js_sort:
  assumes "\<And>a b c. cmp a b \<le> 0 \<Longrightarrow> cmp b c \<le> 0 \<Longrightarrow> cmp a c \<le> 0"
    and "\<And>a b. cmp a b \<le> 0 \<or> cmp b a \<le> 0"
  shows "sorted_wrt (\<lambda>a b. cmp a b \<le> 0) (js_sort cmp xs)"
proof (induction xs)
  case Nil
  show ?case by (simp add: js_sort_Nil)
next
  case (Cons x xs)
  show ?case
    unfolding js_sort_Cons using assms Cons by (rule sorted_js_insert)
qed

lemma filter_js_insert:
  assumes "\<And>a b. Q a \<Longrightarrow> Q b \<Longrightarrow> cmp a b \<le> 0"
  shows "filter Q (js_insert cmp x ys) = (if Q x then x # filter Q ys else filter Q ys)"
  using assms by (induction ys) auto

lemma filter_js_sort:
  assumes "\<And>a b. Q a \<Longrightarrow> Q b \<Longrightarrow> cmp a b \<le> 0"
  shows "filter Q (js_sort cmp xs) = filter Q xs"
proof (induction xs)
  case Nil
  show ?case by (simp add: js_sort_Nil)
next
  case (Cons x xs)
  have "filter Q (js_insert cmp x (js_sort cmp xs))
      = (if Q x then x # filter Q (js_sort cmp xs) else filter Q (js_sort cmp xs))"
    using assms by (rule filter_js_insert)
  with Cons show ?case
    by (simp add: js_sort_Cons)
qed

lemma js_sort_sorted:
  "sorted_wrt (\<lambda>a b. cmp a b \<le> 0) xs \<Longrightarrow> js_sort cmp xs = xs"
proof (induction xs)
  case Nil
  show ?case by (simp add: js_sort_Nil)
next
  case (Cons x xs)
  then have "js_sort cmp xs = xs" by simp
  with Cons.prems show ?case
    by (cases xs) (simp_all add: js_sort_Cons)
qed

lemma msPerDay_pos: "0 < msPerDay"
  by (simp add: msPerDay_def)

lemma startOfDay_parseISO: "startOfDay (parseISO d) = parseISO d"
  by (simp add: startOfDay_def parseISO_def)

lemma startOfDay_eq: "startOfDay now = parseISO (now div msPerDay)"
  by (simp add: startOfDay_def parseISO_def minus_mod_eq_div_mult)

lemma differenceInDays_parseISO: "differenceInDays (parseISO a) (parseISO b) = a - b"
proof -
  have 1: "(parseISO b \<le> parseISO a) = (b \<le> a)"
    using msPerDay_pos by (simp add: parseISO_def)
  have 2: "(parseISO a - parseISO b) div msPerDay = a - b" for a b
    using msPerDay_pos by (simp add: parseISO_def flip: left_diff_distrib)
  show ?thesis
    by (simp add: differenceInDays_def 1 2)
qed

lemma overdue_before_day:
  assumes "parseISO d < now"
  shows "differenceInDays (startOfDay now) (parseISO d) = now div msPerDay - d"
  by (simp add: startOfDay_eq differenceInDays_parseISO)

lemma overdue_stage:
  "map (\<lambda>c. \<lparr>oc_checkout = c,
               daysOverdue = (case expected_return c of
                                None \<Rightarrow> 0
                              | Some d \<Rightarrow> differenceInDays (startOfDay now) (parseISO d))\<rparr>)
     (filter (\<lambda>c. if return_date c \<noteq> None then False
                   else case expected_return c of
                          None \<Rightarrow> False
                        | Some d \<Rightarrow> isPast now (startOfDay (parseISO d))) cs)
   = List.map_filter (overdue_row now) cs"
proof (induction cs)
  case Nil
  show ?case by (simp add: map_filter_simps)
next
  case (Cons c cs)
  have row: "overdue_row now c =
      (if return_date c \<noteq> None then None
       else case expected_return c of
              None \<Rightarrow> None
            | Some d \<Rightarrow> if isPast now (startOfDay (parseISO d))
                        then Some \<lparr>oc_checkout = c,
                               daysOverdue = differenceInDays (startOfDay now) (parseISO d)\<rparr>
                        else None)"
    by (auto simp: overdue_row_def isPast_def startOfDay_parseISO overdue_before_day
        parseISO_def [symmetric] split: option.splits)
  show ?case
    using Cons by (simp add: map_filter_simps row split: option.splits)
qed

lemma getOverdueCheckouts_eq:
  "getOverdueCheckouts now cs
     = js_sort (\<lambda>a b. daysOverdue b - daysOverdue a) (List.map_filter (overdue_row now) cs)"
  by (simp only: getOverdueCheckouts_def Let_def overdue_stage)

lemma overdue_row_self:
  assumes "r \<in> set (List.map_filter (overdue_row now) cs)"
  shows "overdue_row now (oc_checkout r) = Some r"
proof -
  from assms obtain c where c: "overdue_row now c = Some r"
    by (auto simp: map_filter_def)
  then have "oc_checkout r = c"
    by (auto simp: overdue_row_def split: option.splits if_splits)
  with c show ?thesis by simp
qed

lemma map_filter_rows_back:
  "\<forall>r \<in> set rs. f (g r) = Some r \<Longrightarrow> List.map_filter f (map g rs) = rs"
  by (induction rs) (simp_all add: map_filter_simps)

text \<open>
  C8 (as amended). \<open>getOverdueCheckouts\<close> returns, for exactly the open checkouts with an
  expected-return date whose day has started before the instant \<open>now\<close> (every earlier
  date, and today's date once \<open>now\<close> is past midnight), the checkout with days overdue
  equal to today's day number minus the expected day; the result is ordered by days overdue,
  descending, rows with equal days overdue stay in input order, and the function applied
  to the checkouts of its own result returns that result.
\<close>

theorem getOverdueCheckouts_rows_sorted_stable:
  "mset (getOverdueCheckouts now cs) = mset (List.map_filter (overdue_row now) cs)
   \<and> sorted_wrt (\<lambda>a b. daysOverdue b \<le> daysOverdue a) (getOverdueCheckouts now cs)
   \<and> filter (\<lambda>r. daysOverdue r = k) (getOverdueCheckouts now cs)
       = filter (\<lambda>r. daysOverdue r = k) (List.map_filter (overdue_row now) cs)
   \<and> getOverdueCheckouts now (map oc_checkout (getOverdueCheckouts now cs))
       = getOverdueCheckouts now cs"
proof (intro conjI)
  let ?cmp = "\<lambda>a b. daysOverdue b - daysOverdue a"
  let ?rows = "List.map_filter (overdue_row now) cs"
  show "mset (getOverdueCheckouts now cs) = mset ?rows"
    by (simp add: getOverdueCheckouts_eq mset_js_sort)
  have s: "sorted_wrt (\<lambda>a b. ?cmp a b \<le> 0) (js_sort ?cmp ?rows)"
    by (rule sorted_js_sort) auto
  then show sorted: "sorted_wrt (\<lambda>a b. daysOverdue b \<le> daysOverdue a) (getOverdueCheckouts now cs)"
    by (simp add: getOverdueCheckouts_eq)
  show "filter (\<lambda>r. daysOverdue r = k) (getOverdueCheckouts now cs)
       = filter (\<lambda>r. daysOverdue r = k) ?rows"
    unfolding getOverdueCheckouts_eq by (rule filter_js_sort) simp
  have "\<forall>r \<in> set (getOverdueCheckouts now cs). overdue_row now (oc_checkout r) = Some r"
    using overdue_row_self [of _ now cs] mset_js_sort [of ?cmp ?rows]
    by (metis getOverdueCheckouts_eq set_mset_mset)
  then have "List.map_filter (overdue_row now) (map oc_checkout (getOverdueCheckouts now cs))
      = getOverdueCheckouts now cs"
    by (rule map_filter_rows_back)
  then have "getOverdueCheckouts now (map oc_checkout (getOverdueCheckouts now cs))
      = js_sort ?cmp (getOverdueCheckouts now cs)"
    by (simp add: getOverdueCheckouts_eq [of now "map oc_checkout (getOverdueCheckouts now cs)"])
  also have "\<dots> = getOverdueCheckouts now cs"
    using s by (intro js_sort_sorted) (simp add: getOverdueCheckouts_eq)
  finally show "getOverdueCheckouts now (map oc_checkout (getOverdueCheckouts now cs))
       = getOverdueCheckouts now cs" .
qed

theorem getOverdueCheckouts_rows_sorted_stable_witness:
  "getOverdueCheckouts (20 * msPerDay) [co_due 1 18, co_due 2 25, co_due 3 12, co_due 4 18]
     = [\<lparr>oc_checkout = co_due 3 12, daysOverdue = 8\<rparr>,
        \<lparr>oc_checkout = co_due 1 18, daysOverdue = 2\<rparr>,
        \<lparr>oc_checkout = co_due 4 18, daysOverdue = 2\<rparr>]
   \<and> sorted_wrt (\<lambda>a b. daysOverdue b \<le> daysOverdue a)
        (getOverdueCheckouts (20 * msPerDay) [co_due 1 18, co_due 2 25, co_due 3 12, co_due 4 18])
   \<and> filter (\<lambda>r. daysOverdue r = 2)
        (getOverdueCheckouts (20 * msPerDay) [co_due 1 18, co_due 2 25, co_due 3 12, co_due 4 18])
       = [\<lparr>oc_checkout = co_due 1 18, daysOverdue = 2\<rparr>,
          \<lparr>oc_checkout = co_due 4 18, daysOverdue = 2\<rparr>]"
proof -
  have e: "getOverdueCheckouts (20 * msPerDay) [co_due 1 18, co_due 2 25, co_due 3 12, co_due 4 18]
     = [\<lparr>oc_checkout = co_due 3 12, daysOverdue = 8\<rparr>,
        \<lparr>oc_checkout = co_due 1 18, daysOverdue = 2\<rparr>,
        \<lparr>oc_checkout = co_due 4 18, daysOverdue = 2\<rparr>]"
    by (simp add: getOverdueCheckouts_def js_sort_def co_due_def msPerDay_def startOfDay_def
        parseISO_def isPast_def differenceInDays_def)
  have f: "filter (\<lambda>r. daysOverdue r = 2)
        (getOverdueCheckouts (20 * msPerDay) [co_due 1 18, co_due 2 25, co_due 3 12, co_due 4 18])
       = [\<lparr>oc_checkout = co_due 1 18, daysOverdue = 2\<rparr>,
          \<lparr>oc_checkout = co_due 4 18, daysOverdue = 2\<rparr>]"
    unfolding e by simp
  from e f getOverdueCheckouts_rows_sorted_stable [of "20 * msPerDay"
      "[co_due 1 18, co_due 2 25, co_due 3 12, co_due 4 18]" 2]
  show ?thesis by blast
qed

text \<open>
  C8 as stated fails: one millisecond after midnight of day 10, a checkout expected back on
  day 10 is listed, with 0 days overdue, although its date is not before today's date.
\<close>

theorem due_today_counterexample:
  "\<not> overdue_by_date (10 * msPerDay + 1) (co_due 1 10)
   \<and> getOverdueCheckouts (10 * msPerDay + 1) [co_due 1 10]
       = [\<lparr>oc_checkout = co_due 1 10, daysOverdue = 0\<rparr>]"
  by (simp add: overdue_by_date_def getOverdueCheckouts_def js_sort_def co_due_def msPerDay_def
        startOfDay_def parseISO_def isPast_def differenceInDays_def)

lemma interval_nonzero: "MAINTENANCE_INTERVALS cat = Some i \<Longrightarrow> i \<noteq> 0"
  by (cases cat) auto

lemma addDays_parseISO: "addDays (parseISO d) n = parseISO (d + n)"
  by (simp add: addDays_def parseISO_def distrib_right)

lemma maintenance_stage:
  "map (\<lambda>eq. case last_maintenance eq of
                None \<Rightarrow> \<lparr>md_equipment = eq, daysPastDue = None, nextDueDate = None,
                          neverMaintained = True\<rparr>
              | Some lm \<Rightarrow>
                  let nextDue = addDays (parseISO lm)
                                  (or_zero (MAINTENANCE_INTERVALS (category eq)))
                  in \<lparr>md_equipment = eq,
                      daysPastDue = Some (differenceInDays (startOfDay now) nextDue),
                      nextDueDate = Some nextDue, neverMaintained = False\<rparr>)
     (filter (\<lambda>eq. case MAINTENANCE_INTERVALS (category eq) of
                     None \<Rightarrow> False
                   | Some interval \<Rightarrow>
                       if interval = 0 then False
                       else case last_maintenance eq of
                              None \<Rightarrow> True
                            | Some lm \<Rightarrow>
                                let nextDue = addDays (parseISO lm) interval
                                in isPast now nextDue
                                   \<or> differenceInDays nextDue (startOfDay now) \<le> 14)
        equipment)
   = List.map_filter (maintenance_row now) equipment"
proof (induction equipment)
  case Nil
  show ?case by (simp add: map_filter_simps)
next
  case (Cons e es)
  show ?case
  proof (cases "MAINTENANCE_INTERVALS (category e)")
    case None
    then show ?thesis using Cons by (simp add: map_filter_simps maintenance_row_def)
  next
    case (Some i)
    then have i: "i \<noteq> 0" by (rule interval_nonzero)
    show ?thesis
    proof (cases "last_maintenance e")
      case None
      then show ?thesis
        using Cons Some i by (simp add: map_filter_simps maintenance_row_def)
    next
      case lm: (Some lm)
      have due: "(isPast now (addDays (parseISO lm) i)
                  \<or> differenceInDays (addDays (parseISO lm) i) (startOfDay now) \<le> 14)
          = ((lm + i) * msPerDay < now \<or> (lm + i) - now div msPerDay \<le> 14)"
        by (simp add: addDays_parseISO startOfDay_eq differenceInDays_parseISO isPast_def)
           (simp add: parseISO_def)
      have row: "\<lparr>md_equipment = e,
            daysPastDue = Some (differenceInDays (startOfDay now) (addDays (parseISO lm) i)),
            nextDueDate = Some (addDays (parseISO lm) i), neverMaintained = False\<rparr>
          = \<lparr>md_equipment = e, daysPastDue = Some (now div msPerDay - (lm + i)),
             nextDueDate = Some ((lm + i) * msPerDay), neverMaintained = False\<rparr>"
        by (simp add: addDays_parseISO startOfDay_eq differenceInDays_parseISO)
           (simp add: parseISO_def)
      show ?thesis
        using Cons Some i lm
        by (simp add: map_filter_simps maintenance_row_def due row or_zero_def Let_def)
    qed
  qed
qed

lemma getMaintenanceDue_eq:
  "getMaintenanceDue now equipment
     = js_sort maintenance_cmp (List.map_filter (maintenance_row now) equipment)"
  unfolding getMaintenanceDue_def Let_def
  using maintenance_stage [of now equipment, unfolded Let_def] by (rule arg_cong)

lemma maintenance_cmp_trans:
  "maintenance_cmp a b \<le> 0 \<Longrightarrow> maintenance_cmp b c \<le> 0 \<Longrightarrow> maintenance_cmp a c \<le> 0"
  by (auto simp: maintenance_cmp_def split: if_splits)

lemma maintenance_cmp_total:
  "maintenance_cmp a b \<le> 0 \<or> maintenance_cmp b a \<le> 0"
  by (auto simp: maintenance_cmp_def split: if_splits)

lemma maintenance_cmp_before:
  "maintenance_cmp a b \<le> 0 \<Longrightarrow> maintenance_before a b"
  by (auto simp: maintenance_cmp_def maintenance_before_def split: if_splits)

text \<open>
  C9. The intervals are the configured ones; \<open>getMaintenanceDue\<close> returns exactly the rows
  of the items that have an interval and are never maintained or have their next due date
  in the past or at most 14 days after today; never-maintained items come first, the
  others follow by days past due, descending.
\<close>

theorem getMaintenanceDue_rows_sorted:
  "MAINTENANCE_INTERVALS Grounds = Some 90 \<and> MAINTENANCE_INTERVALS Tools = Some 180
   \<and> MAINTENANCE_INTERVALS Cleaning = Some 90 \<and> MAINTENANCE_INTERVALS Electrical = Some 365
   \<and> MAINTENANCE_INTERVALS Shop = Some 180 \<and> MAINTENANCE_INTERVALS Range = Some 90
   \<and> MAINTENANCE_INTERVALS Events = None \<and> MAINTENANCE_INTERVALS Other = None
   \<and> mset (getMaintenanceDue now equipment)
       = mset (List.map_filter (maintenance_row now) equipment)
   \<and> sorted_wrt maintenance_before (getMaintenanceDue now equipment)"
proof -
  have "sorted_wrt (\<lambda>a b. maintenance_cmp a b \<le> 0) (getMaintenanceDue now equipment)"
    unfolding getMaintenanceDue_eq
    using maintenance_cmp_trans maintenance_cmp_total by (rule sorted_js_sort)
  then have "sorted_wrt maintenance_before (getMaintenanceDue now equipment)"
    by (rule sorted_wrt_mono_rel [rotated]) (simp add: maintenance_cmp_before)
  then show ?thesis
    by (simp add: getMaintenanceDue_eq mset_js_sort)
qed

theorem getMaintenanceDue_rows_sorted_witness:
  "getMaintenanceDue (100 * msPerDay)
     [eq_maint 1 Grounds (Some 20), eq_maint 2 Events None, eq_maint 3 Tools None,
      eq_maint 4 Cleaning (Some 5), eq_maint 5 Electrical (Some 0)]
   = [\<lparr>md_equipment = eq_maint 3 Tools None, daysPastDue = None, nextDueDate = None,
        neverMaintained = True\<rparr>,
      \<lparr>md_equipment = eq_maint 4 Cleaning (Some 5), daysPastDue = Some 5,
        nextDueDate = Some (95 * msPerDay), neverMaintained = False\<rparr>,
      \<lparr>md_equipment = eq_maint 1 Grounds (Some 20), daysPastDue = Some (- 10),
        nextDueDate = Some (110 * msPerDay), neverMaintained = False\<rparr>]
   \<and> sorted_wrt maintenance_before
       (getMaintenanceDue (100 * msPerDay)
         [eq_maint 1 Grounds (Some 20), eq_maint 2 Events None, eq_maint 3 Tools None,
          eq_maint 4 Cleaning (Some 5), eq_maint 5 Electrical (Some 0)])"
proof -
  have e: "getMaintenanceDue (100 * msPerDay)
     [eq_maint 1 Grounds (Some 20), eq_maint 2 Events None, eq_maint 3 Tools None,
      eq_maint 4 Cleaning (Some 5), eq_maint 5 Electrical (Some 0)]
   = [\<lparr>md_equipment = eq_maint 3 Tools None, daysPastDue = None, nextDueDate = None,
        neverMaintained = True\<rparr>,
      \<lparr>md_equipment = eq_maint 4 Cleaning (Some 5), daysPastDue = Some 5,
        nextDueDate = Some (95 * msPerDay), neverMaintained = False\<rparr>,
      \<lparr>md_equipment = eq_maint 1 Grounds (Some 20), daysPastDue = Some (- 10),
        nextDueDate = Some (110 * msPerDay), neverMaintained = False\<rparr>]"
    by (simp add: getMaintenanceDue_def js_sort_def eq_maint_def msPerDay_def startOfDay_def
        parseISO_def isPast_def differenceInDays_def addDays_def or_zero_def Let_def
        maintenance_cmp_def)
  from e getMaintenanceDue_rows_sorted [of "100 * msPerDay"
     "[eq_maint 1 Grounds (Some 20), eq_maint 2 Events None, eq_maint 3 Tools None,
      eq_maint 4 Cleaning (Some 5), eq_maint 5 Electrical (Some 0)]"]
  show ?thesis by blast
qed

section \<open>CSV export properties\<close>

lemma chars_distinct [simp]:
  "comma \<noteq> dquote" "dquote \<noteq> comma" "comma \<noteq> newline" "newline \<noteq> comma"
  "dquote \<noteq> newline" "newline \<noteq> dquote"
  by (simp_all add: comma_def dquote_def newline_def)



















end
